theory Spec2Isabelle
  imports Main
begin

section \<open>The icon extractor \<open>cut-geocache-icons.py\<close>\<close>

text \<open>
  The script slices sixteen fixed rectangles out of one sprite sheet and saves each of them
  as a PNG file. Everything it does beyond arithmetic goes through Pillow and \<open>pathlib\<close>;
  those calls are the fields of the record \<open>env\<close>, the file system is passed
  explicitly, and every call and every \<open>print\<close> is appended to a trace, in program order.
\<close>

subsection \<open>Data\<close>

text \<open>A \<open>pathlib\<close> path is the list of its parts; \<open>p / "a/b"\<close> appends the parts.\<close>

type_synonym path = "string list"

text \<open>An exception caught by \<open>except Exception as e\<close>, as the text \<open>{e}\<close> that is printed.\<close>

type_synonym exn = string

type_synonym bytes = "nat list"

type_synonym pixel = nat

text \<open>The 4-tuple handed to \<open>Image.crop\<close>: (left, upper, right, lower).\<close>

type_synonym box = "int \<times> int \<times> int \<times> int"

text \<open>An entry of \<open>ICONS\<close>: (name, x, y, width, height).\<close>

type_synonym icon = "string \<times> int \<times> int \<times> int \<times> int"

text \<open>
  A decoded image: its \<open>size\<close> (width, height) and its pixels. Only the pixels at
  \<open>0 \<le> i < width\<close>, \<open>0 \<le> j < height\<close> belong to the image.
\<close>

record image =
  im_size :: "int \<times> int"
  im_pixel :: "int \<Rightarrow> int \<Rightarrow> pixel"

record filesystem =
  files :: "path \<Rightarrow> bytes option"
  dirs :: "path set"

text \<open>One constructor per \<open>print\<close> call of the script, with the values it interpolates.\<close>

datatype line =
    PilMissing                        \<comment> \<open>line 14\<close>
  | PilInstallHint                    \<comment> \<open>line 15\<close>
  | Banner                            \<comment> \<open>line 45\<close>
  | Rule                              \<comment> \<open>line 46: \<open>"=" * 50\<close>\<close>
  | SpriteNotFound                    \<comment> \<open>line 50\<close>
  | SearchedIn path                   \<comment> \<open>line 51: \<open>{SPRITE_PATH}\<close>\<close>
  | CheckHint                         \<comment> \<open>line 52\<close>
  | SpriteFound path                  \<comment> \<open>line 55: \<open>{SPRITE_PATH}\<close>\<close>
  | OutputFolder path                 \<comment> \<open>line 59: \<open>{OUTPUT_DIR}\<close>\<close>
  | SpriteLoaded int int              \<comment> \<open>line 64: \<open>{sprite.size[0]}x{sprite.size[1]}\<close>\<close>
  | OpenError exn                     \<comment> \<open>line 66: \<open>{e}\<close>\<close>
  | Cutting                           \<comment> \<open>line 70\<close>
  | IconSaved string int int string   \<comment> \<open>line 82: \<open>{name}.png ({x}, {y}) -> {output_path.name}\<close>\<close>
  | IconError string exn              \<comment> \<open>line 86: \<open>{name}: {e}\<close>\<close>
  | BlankRule                         \<comment> \<open>line 89: \<open>"\n" + "=" * 50\<close>\<close>
  | Finished nat nat                  \<comment> \<open>line 90: \<open>{success_count}/{len(ICONS)}\<close>\<close>
  | AllSucceeded                      \<comment> \<open>line 93\<close>
  | ReadyToBuild                      \<comment> \<open>line 94\<close>
  | SomeFailed int                    \<comment> \<open>line 96: \<open>{len(ICONS) - success_count}\<close>\<close>
  | SavedIn                           \<comment> \<open>line 98\<close>
  | Folder path                       \<comment> \<open>line 99: \<open>{OUTPUT_DIR}\<close>\<close>

text \<open>What the script does to the outside world, in the order it does it.\<close>

datatype event =
    ImportPIL                         \<comment> \<open>\<open>from PIL import Image\<close>\<close>
  | Print line
  | Exists path                       \<comment> \<open>\<open>Path.exists()\<close>\<close>
  | Mkdir path bool bool              \<comment> \<open>\<open>Path.mkdir(parents=, exist_ok=)\<close>\<close>
  | Open path                         \<comment> \<open>\<open>Image.open(path)\<close>\<close>
  | Crop box                          \<comment> \<open>\<open>sprite.crop(box)\<close>\<close>
  | Save path string                  \<comment> \<open>\<open>icon.save(path, format)\<close>\<close>

text \<open>
  How the process ends: falling off the end of the script, \<open>sys.exit(n)\<close>, or an exception
  nobody catches (the interpreter prints a traceback and exits with status 1).
\<close>

datatype status = Completed | SysExit int | Uncaught exn

fun exit_code :: "status \<Rightarrow> int" where
  "exit_code Completed = 0"
| "exit_code (SysExit n) = n"
| "exit_code (Uncaught e) = 1"

text \<open>
  The environment: the location of the script file (\<open>__file__\<close>) and the library calls.
  A call that can raise returns the exception; a call that changes the file system also
  returns the file system it leaves behind, whether it raised or not.
\<close>

record env =
  script_file :: path
  pil_available :: bool
  path_exists :: "filesystem \<Rightarrow> path \<Rightarrow> bool"
  path_mkdir :: "filesystem \<Rightarrow> path \<Rightarrow> bool \<Rightarrow> bool \<Rightarrow> exn option \<times> filesystem"
  image_open :: "filesystem \<Rightarrow> path \<Rightarrow> exn + image"
  image_crop :: "image \<Rightarrow> box \<Rightarrow> exn + image"
  image_save :: "filesystem \<Rightarrow> path \<Rightarrow> image \<Rightarrow> string \<Rightarrow> exn option \<times> filesystem"

record run_state =
  st_fs :: filesystem
  st_trace :: "event list"
  success_count :: nat

record run_result =
  status :: status
  trace :: "event list"
  final_fs :: filesystem

subsection \<open>Configuration (lines 19-42)\<close>

text \<open>
  \<open>Path.parent\<close>: the path without its last part; the root \<open>/\<close> is its own parent.
\<close>

definition parent :: "path \<Rightarrow> path" where
  "parent p = (if p = [''/''] then p else butlast p)"

definition SCRIPT_DIR :: "env \<Rightarrow> path" where
  "SCRIPT_DIR env = parent (script_file env)"

definition PROJECT_ROOT :: "env \<Rightarrow> path" where
  "PROJECT_ROOT env = parent (SCRIPT_DIR env)"

definition SPRITE_PATH :: "env \<Rightarrow> path" where
  "SPRITE_PATH env = PROJECT_ROOT env @ [''src'', ''browser'', ''assets'', ''geocaching-sprite.png'']"

definition OUTPUT_DIR :: "env \<Rightarrow> path" where
  "OUTPUT_DIR env = PROJECT_ROOT env @ [''src'', ''browser'', ''assets'', ''geocache-icons'']"

definition ICONS :: "icon list" where
  "ICONS =
    [(''traditional'', 0, 0, 50, 50),
     (''ape'', 100, 0, 50, 50),
     (''hq'', 200, 0, 50, 50),
     (''multi'', 300, 0, 50, 50),
     (''event'', 400, 0, 50, 50),
     (''cito'', 500, 0, 50, 50),
     (''mega'', 600, 0, 50, 50),
     (''giga'', 700, 0, 50, 50),
     (''maze'', 800, 0, 50, 50),
     (''earth'', 900, 0, 50, 50),
     (''virtual'', 1000, 0, 50, 50),
     (''webcam'', 1100, 0, 50, 50),
     (''locationless'', 1200, 0, 50, 50),
     (''mystery'', 1300, 0, 50, 50),
     (''letterbox'', 1400, 0, 50, 50),
     (''wherigo'', 1500, 0, 50, 50)]"

subsection \<open>The loop (lines 73-86)\<close>

text \<open>\<open>(x, y, x + w, y + h)\<close>, the box of line 76.\<close>

fun crop_box :: "icon \<Rightarrow> box" where
  "crop_box (name, x, y, w, h) = (x, y, x + w, y + h)"

text \<open>\<open>OUTPUT_DIR / f"{name}.png"\<close>, the path of line 79.\<close>

fun output_path :: "env \<Rightarrow> icon \<Rightarrow> path" where
  "output_path env (name, x, y, w, h) = OUTPUT_DIR env @ [name @ ''.png'']"

text \<open>
  The body of the loop. An exception of \<open>crop\<close> or of \<open>save\<close> lands in the
  \<open>except\<close> branch, which prints and goes on; \<open>success_count\<close> grows only at the end
  of the \<open>try\<close> block.
\<close>

fun cut_icon :: "env \<Rightarrow> image \<Rightarrow> icon \<Rightarrow> run_state \<Rightarrow> run_state" where
  "cut_icon env sprite (name, x, y, w, h) s =
     (case image_crop env sprite (x, y, x + w, y + h) of
        Inl e \<Rightarrow>
          s\<lparr>st_trace := st_trace s @ [Crop (x, y, x + w, y + h), Print (IconError name e)]\<rparr>
      | Inr icon \<Rightarrow>
          (let output_path = OUTPUT_DIR env @ [name @ ''.png'']
           in case image_save env (st_fs s) output_path icon ''PNG'' of
                (Some e, fs') \<Rightarrow>
                  \<lparr>st_fs = fs',
                   st_trace = st_trace s @
                     [Crop (x, y, x + w, y + h), Save output_path ''PNG'',
                      Print (IconError name e)],
                   success_count = success_count s\<rparr>
              | (None, fs') \<Rightarrow>
                  \<lparr>st_fs = fs',
                   st_trace = st_trace s @
                     [Crop (x, y, x + w, y + h), Save output_path ''PNG'',
                      Print (IconSaved name x y (last output_path))],
                   success_count = success_count s + 1\<rparr>))"

fun for_icons :: "env \<Rightarrow> image \<Rightarrow> icon list \<Rightarrow> run_state \<Rightarrow> run_state" where
  "for_icons env sprite [] s = s"
| "for_icons env sprite (ic # rest) s = for_icons env sprite rest (cut_icon env sprite ic s)"

subsection \<open>The summary (lines 88-99)\<close>

definition summary :: "env \<Rightarrow> nat \<Rightarrow> line list" where
  "summary env n =
     [BlankRule, Finished n (length ICONS)] @
     (if n = length ICONS then [AllSucceeded, ReadyToBuild]
      else [SomeFailed (int (length ICONS) - int n)]) @
     [SavedIn, Folder (OUTPUT_DIR env)]"

subsection \<open>\<open>main\<close> (lines 44-99) and the script\<close>

definition main :: "env \<Rightarrow> filesystem \<Rightarrow> event list \<Rightarrow> run_result" where
  "main env fs t0 =
     (let t1 = t0 @ [Print Banner, Print Rule, Exists (SPRITE_PATH env)] in
      if \<not> path_exists env fs (SPRITE_PATH env) then
        \<lparr>status = SysExit 1,
         trace = t1 @ [Print SpriteNotFound, Print (SearchedIn (SPRITE_PATH env)),
                       Print CheckHint],
         final_fs = fs\<rparr>
      else
        (let t2 = t1 @ [Print (SpriteFound (SPRITE_PATH env)), Mkdir (OUTPUT_DIR env) True True]
         in (case path_mkdir env fs (OUTPUT_DIR env) True True of
               (Some e, fs1) \<Rightarrow> \<lparr>status = Uncaught e, trace = t2, final_fs = fs1\<rparr>
             | (None, fs1) \<Rightarrow>
                 (let t3 = t2 @ [Print (OutputFolder (OUTPUT_DIR env)), Open (SPRITE_PATH env)]
                  in (case image_open env fs1 (SPRITE_PATH env) of
                        Inl e \<Rightarrow>
                          \<lparr>status = SysExit 1, trace = t3 @ [Print (OpenError e)],
                           final_fs = fs1\<rparr>
                      | Inr sprite \<Rightarrow>
                          (let t4 = t3 @ [Print (SpriteLoaded (fst (im_size sprite))
                                                              (snd (im_size sprite))),
                                          Print Cutting];
                               s = for_icons env sprite ICONS
                                     \<lparr>st_fs = fs1, st_trace = t4, success_count = 0\<rparr>
                           in \<lparr>status = Completed,
                               trace = st_trace s @ map Print (summary env (success_count s)),
                               final_fs = st_fs s\<rparr>))))))"

text \<open>
  Running the file: the import guard of lines 11-16, then \<open>main()\<close> (line 102).
\<close>

definition script :: "env \<Rightarrow> filesystem \<Rightarrow> run_result" where
  "script env fs =
     (if \<not> pil_available env then
        \<lparr>status = SysExit 1,
         trace = [ImportPIL, Print PilMissing, Print PilInstallHint],
         final_fs = fs\<rparr>
      else main env fs [ImportPIL])"

subsection \<open>Reading a trace\<close>

fun stdout :: "event list \<Rightarrow> line list" where
  "stdout [] = []"
| "stdout (Print l # t) = l # stdout t"
| "stdout (_ # t) = stdout t"

fun crop_calls :: "event list \<Rightarrow> box list" where
  "crop_calls [] = []"
| "crop_calls (Crop b # t) = b # crop_calls t"
| "crop_calls (_ # t) = crop_calls t"

fun saved_paths :: "event list \<Rightarrow> path list" where
  "saved_paths [] = []"
| "saved_paths (Save p f # t) = p # saved_paths t"
| "saved_paths (_ # t) = saved_paths t"

text \<open>The events of the loop: what one pass through lines 74-86 can add to the trace.\<close>

fun icon_event :: "event \<Rightarrow> bool" where
  "icon_event (Crop b) = True"
| "icon_event (Save p f) = True"
| "icon_event (Print (IconSaved n x y f)) = True"
| "icon_event (Print (IconError n e)) = True"
| "icon_event _ = False"

fun is_mkdir :: "event \<Rightarrow> bool" where
  "is_mkdir (Mkdir p a b) = True"
| "is_mkdir _ = False"

subsection \<open>The straight-line part of \<open>main\<close>\<close>

text \<open>The trace of lines 45-63 on the path that reaches \<open>Image.open\<close>.\<close>

definition before_loop :: "env \<Rightarrow> event list" where
  "before_loop env =
     [Print Banner, Print Rule, Exists (SPRITE_PATH env), Print (SpriteFound (SPRITE_PATH env)),
      Mkdir (OUTPUT_DIR env) True True, Print (OutputFolder (OUTPUT_DIR env)),
      Open (SPRITE_PATH env)]"

text \<open>The state in which the loop starts (lines 64-71).\<close>

definition loop_start :: "env \<Rightarrow> filesystem \<Rightarrow> image \<Rightarrow> event list \<Rightarrow> run_state" where
  "loop_start env fs1 sprite t0 =
     \<lparr>st_fs = fs1,
      st_trace = t0 @ before_loop env @
        [Print (SpriteLoaded (fst (im_size sprite)) (snd (im_size sprite))), Print Cutting],
      success_count = 0\<rparr>"

subsection \<open>A small environment to run the script in\<close>

text \<open>
  A toy image file holds a width, a height and a seed; a toy PNG holds the size of the
  image, its first and its last pixel. The crop follows Pillow: a box whose right or lower edge lies
  before the left or upper one raises, and pixels of the box outside the image are 0.
\<close>

definition toy_decode :: "bytes \<Rightarrow> exn + image" where
  "toy_decode b =
     (case b of
        [w, h, c] \<Rightarrow> Inr \<lparr>im_size = (int w, int h), im_pixel = (\<lambda>i j. c + nat i + nat j * w)\<rparr>
      | _ \<Rightarrow> Inl ''cannot identify image file'')"

definition toy_png :: "image \<Rightarrow> bytes" where
  "toy_png img =
     [nat (fst (im_size img)), nat (snd (im_size img)), im_pixel img 0 0,
      im_pixel img (fst (im_size img) - 1) (snd (im_size img) - 1)]"

definition pil_crop :: "image \<Rightarrow> box \<Rightarrow> exn + image" where
  "pil_crop img b =
     (case b of (l, u, r, lo) \<Rightarrow>
        if r < l then Inl ''Coordinate right is less than left''
        else if lo < u then Inl ''Coordinate lower is less than upper''
        else Inr \<lparr>im_size = (r - l, lo - u),
                  im_pixel = (\<lambda>i j.
                    if 0 \<le> l + i \<and> l + i < fst (im_size img) \<and>
                       0 \<le> u + j \<and> u + j < snd (im_size img)
                    then im_pixel img (l + i) (u + j) else 0)\<rparr>)"

definition ref_env :: env where
  "ref_env =
     \<lparr>script_file = [''repo'', ''zones'', ''scripts'', ''cut-geocache-icons.py''],
      pil_available = True,
      path_exists = (\<lambda>fs p. files fs p \<noteq> None \<or> p \<in> dirs fs),
      path_mkdir = (\<lambda>fs p parents exist_ok.
        if p \<in> dirs fs then (if exist_ok then (None, fs) else (Some ''File exists'', fs))
        else if files fs p \<noteq> None then (Some ''File exists'', fs)
        else if parents then (None, fs\<lparr>dirs := dirs fs \<union> (\<lambda>n. take n p) ` {0..length p}\<rparr>)
        else if parent p \<in> dirs fs then (None, fs\<lparr>dirs := insert p (dirs fs)\<rparr>)
        else (Some ''No such file or directory'', fs)),
      image_open = (\<lambda>fs p.
        case files fs p of None \<Rightarrow> Inl ''No such file or directory'' | Some b \<Rightarrow> toy_decode b),
      image_crop = pil_crop,
      image_save = (\<lambda>fs p img fmt.
        if parent p \<in> dirs fs then (None, fs\<lparr>files := (files fs)(p \<mapsto> toy_png img)\<rparr>)
        else (Some ''No such file or directory'', fs))\<rparr>"

definition ref_fs :: "nat \<Rightarrow> nat \<Rightarrow> filesystem" where
  "ref_fs w h =
     \<lparr>files = Map.empty([''repo'', ''zones'', ''src'', ''browser'', ''assets'',
                          ''geocaching-sprite.png''] \<mapsto> [w, h, 7]),
      dirs = {[''repo'', ''zones'', ''src'', ''browser'', ''assets'']}\<rparr>"

definition empty_fs :: filesystem where
  "empty_fs = \<lparr>files = Map.empty, dirs = {}\<rparr>"


subsection \<open>The per-icon lines of a trace\<close>

text \<open>The number of confirmation lines (line 82) in a trace.\<close>

fun succeeded :: "event list \<Rightarrow> nat" where
  "succeeded [] = 0"
| "succeeded (Print (IconSaved n x y f) # t) = Suc (succeeded t)"
| "succeeded (_ # t) = succeeded t"

text \<open>The lines that the loop prints: lines 82 and 86.\<close>

fun is_icon_line :: "line \<Rightarrow> bool" where
  "is_icon_line (IconSaved n x y f) = True"
| "is_icon_line (IconError n e) = True"
| "is_icon_line _ = False"

text \<open>The exception that the \<open>try\<close> block of lines 74-83 raises for this icon, if any.\<close>

fun raised :: "env \<Rightarrow> image \<Rightarrow> filesystem \<Rightarrow> icon \<Rightarrow> exn option" where
  "raised env sprite fs (name, x, y, w, h) =
     (case image_crop env sprite (x, y, x + w, y + h) of
        Inl e \<Rightarrow> Some e
      | Inr icon \<Rightarrow> fst (image_save env fs (OUTPUT_DIR env @ [name @ ''.png'']) icon ''PNG''))"

text \<open>The line that the loop prints for an icon.\<close>

fun icon_line :: "icon \<Rightarrow> exn option \<Rightarrow> line" where
  "icon_line (name, x, y, w, h) None = IconSaved name x y (name @ ''.png'')"
| "icon_line (name, x, y, w, h) (Some e) = IconError name e"

text \<open>The small file system after \<open>mkdir\<close>.\<close>

definition ref_fs1 :: "nat \<Rightarrow> nat \<Rightarrow> filesystem" where
  "ref_fs1 w h = snd (path_mkdir ref_env (ref_fs w h) (OUTPUT_DIR ref_env) True True)"

subsection \<open>What the theorems ask of Pillow and \<open>pathlib\<close>\<close>

text \<open>
  The library calls are parameters. Where a property of the script depends on what a call
  does, the theorem names it as a hypothesis, one of the predicates below, and the small
  environment above keeps every one of them.
\<close>

text \<open>\<open>save\<close> changes no file but the one it is given.\<close>

definition save_frame :: "env \<Rightarrow> bool" where
  "save_frame env =
     (\<forall>fs p img fmt q. q \<noteq> p \<longrightarrow> files (snd (image_save env fs p img fmt)) q = files fs q)"

text \<open>\<open>mkdir\<close> changes no file.\<close>

definition mkdir_frame :: "env \<Rightarrow> bool" where
  "mkdir_frame env = (\<forall>fs p a b. files (snd (path_mkdir env fs p a b)) = files fs)"

text \<open>The box lies within the image.\<close>

definition inside :: "image \<Rightarrow> box \<Rightarrow> bool" where
  "inside img b =
     (case b of (l, u, r, lo) \<Rightarrow>
        0 \<le> l \<and> 0 \<le> u \<and> l \<le> r \<and> u \<le> lo \<and> r \<le> fst (im_size img) \<and> lo \<le> snd (im_size img))"

text \<open>
  \<open>out\<close> is the region of \<open>src\<close> that the box describes: the box lies within \<open>src\<close>,
  \<open>out\<close> has the size of the box, and its pixel \<open>(i, j)\<close> is the pixel
  \<open>(left + i, upper + j)\<close> of \<open>src\<close>; the right and lower edges are excluded.
\<close>

definition is_region :: "image \<Rightarrow> box \<Rightarrow> image \<Rightarrow> bool" where
  "is_region src b out =
     (case b of (l, u, r, lo) \<Rightarrow>
        inside src b \<and> im_size out = (r - l, lo - u) \<and>
        (\<forall>i \<in> {0..<r - l}. \<forall>j \<in> {0..<lo - u}. im_pixel out i j = im_pixel src (l + i) (u + j)))"

text \<open>What Pillow promises of \<open>Image.crop\<close> for a box within the image.\<close>

definition crop_contract :: "env \<Rightarrow> bool" where
  "crop_contract env =
     (\<forall>img b. inside img b \<longrightarrow>
        (case image_crop env img b of Inl e \<Rightarrow> False | Inr out \<Rightarrow> is_region img b out))"

text \<open>
  No write fails: saving an image as PNG into an existing directory creates or replaces
  that one file with the encoding \<open>enc\<close> of the image and changes nothing else.
\<close>

definition save_contract :: "env \<Rightarrow> (image \<Rightarrow> bytes) \<Rightarrow> bool" where
  "save_contract env enc =
     (\<forall>fs p img. parent p \<in> dirs fs \<longrightarrow>
        image_save env fs p img ''PNG'' = (None, fs\<lparr>files := (files fs)(p \<mapsto> enc img)\<rparr>))"

text \<open>
  Under \<open>save_contract\<close> the loop is determined by what \<open>crop\<close> returns: the files it
  leaves (\<open>saved_files\<close>), the events it adds for an icon (\<open>saving_events\<close>) and the
  icons it counts (\<open>cropped\<close>).
\<close>

fun saved_files ::
  "env \<Rightarrow> (image \<Rightarrow> bytes) \<Rightarrow> image \<Rightarrow> icon list \<Rightarrow> (path \<Rightarrow> bytes option) \<Rightarrow> path \<Rightarrow> bytes option"
where
  "saved_files env enc sprite [] f = f"
| "saved_files env enc sprite (ic # rest) f =
     saved_files env enc sprite rest
       (case image_crop env sprite (crop_box ic) of
          Inl e \<Rightarrow> f
        | Inr out \<Rightarrow> f(output_path env ic \<mapsto> enc out))"

fun saving_events :: "env \<Rightarrow> image \<Rightarrow> icon \<Rightarrow> event list" where
  "saving_events env sprite (name, x, y, w, h) =
     (case image_crop env sprite (x, y, x + w, y + h) of
        Inl e \<Rightarrow> [Crop (x, y, x + w, y + h), Print (IconError name e)]
      | Inr out \<Rightarrow>
          [Crop (x, y, x + w, y + h), Save (OUTPUT_DIR env @ [name @ ''.png'']) ''PNG'',
           Print (IconSaved name x y (name @ ''.png''))])"

definition cropped :: "env \<Rightarrow> image \<Rightarrow> icon list \<Rightarrow> icon list" where
  "cropped env sprite ics = filter (\<lambda>ic. \<not> isl (image_crop env sprite (crop_box ic))) ics"


text \<open>
  \<open>Path.mkdir(parents=True, exist_ok=True)\<close>: when it returns, the directory is there, no
  file has changed and no directory is gone; a directory that was missing has been made
  together with every missing ancestor; on a directory that is there already it returns
  and changes nothing.
\<close>

definition mkdir_contract :: "env \<Rightarrow> bool" where
  "mkdir_contract env =
     (\<forall>fs p.
        (\<forall>fs'. path_mkdir env fs p True True = (None, fs') \<longrightarrow>
           files fs' = files fs \<and> dirs fs \<subseteq> dirs fs' \<and> p \<in> dirs fs' \<and>
           (p \<notin> dirs fs \<longrightarrow> (\<forall>n \<in> {1..length p}. take n p \<in> dirs fs'))) \<and>
        (p \<in> dirs fs \<longrightarrow> path_mkdir env fs p True True = (None, fs)))"


text \<open>\<open>save\<close> makes and removes no directory.\<close>

definition save_keeps_dirs :: "env \<Rightarrow> bool" where
  "save_keeps_dirs env =
     (\<forall>fs p img fmt. dirs (snd (image_save env fs p img fmt)) = dirs fs)"

text \<open>
  Whether \<open>save\<close> raises, and what it leaves at the path it is given, depends on the
  directories and on the file at that path only, not on any other file.
\<close>

definition save_local :: "env \<Rightarrow> bool" where
  "save_local env =
     (\<forall>fs fs' p img fmt.
        dirs fs = dirs fs' \<and> files fs p = files fs' p \<longrightarrow>
          fst (image_save env fs p img fmt) = fst (image_save env fs' p img fmt) \<and>
          files (snd (image_save env fs p img fmt)) p =
            files (snd (image_save env fs' p img fmt)) p)"

subsection \<open>Further environments\<close>



text \<open>An environment in which the crop of the second icon, and of no other, raises.\<close>

definition ape_env :: env where
  "ape_env =
     ref_env\<lparr>image_crop := (\<lambda>img b.
       if fst b = 100 then Inl ''tile cannot extend outside image'' else pil_crop img b)\<rparr>"

section \<open>Properties\<close>

subsection \<open>Reading traces\<close>

lemma stdout_append: "stdout (a @ b) = stdout a @ stdout b"
  by (induction a rule: stdout.induct) simp_all

lemma crop_calls_append: "crop_calls (a @ b) = crop_calls a @ crop_calls b"
  by (induction a rule: crop_calls.induct) simp_all

lemma saved_paths_append: "saved_paths (a @ b) = saved_paths a @ saved_paths b"
  by (induction a rule: saved_paths.induct) simp_all

lemma saved_paths_map_Print: "saved_paths (map Print ls) = []"
  by (induction ls) simp_all

lemma crop_calls_map_Print: "crop_calls (map Print ls) = []"
  by (induction ls) simp_all

lemma stdout_map_Print: "stdout (map Print ls) = ls"
  by (induction ls) simp_all

lemma cut_icon_saved_paths:
  "saved_paths (st_trace (cut_icon env sprite ic s)) =
     saved_paths (st_trace s) @
       (case image_crop env sprite (crop_box ic) of Inl e \<Rightarrow> [] | Inr icon \<Rightarrow> [output_path env ic])"
  by (cases ic) (simp add: saved_paths_append Let_def split: sum.splits prod.splits option.splits)

lemma for_icons_saved_paths:
  "saved_paths (st_trace (for_icons env sprite ics s)) =
     saved_paths (st_trace s) @
       map (output_path env) (filter (\<lambda>ic. \<not> isl (image_crop env sprite (crop_box ic))) ics)"
  by (induction ics arbitrary: s) (simp_all add: cut_icon_saved_paths split: sum.splits)

lemma names_distinct: "distinct (map fst ICONS)"
  by (simp add: ICONS_def)

lemma output_path_inj: "output_path env a = output_path env b \<longleftrightarrow> fst a = fst b"
  by (cases a; cases b) simp

lemma output_paths_distinct: "distinct (map fst ics) \<Longrightarrow> distinct (map (output_path env) ics)"
  by (induction ics) (force simp: output_path_inj)+

subsection \<open>The loop only adds loop events\<close>

lemma cut_icon_trace:
  "\<exists>t. st_trace (cut_icon env sprite ic s) = st_trace s @ t \<and> list_all icon_event t"
  by (cases ic) (simp add: Let_def split: sum.splits prod.splits option.splits)

lemma for_icons_trace:
  "\<exists>t. st_trace (for_icons env sprite ics s) = st_trace s @ t \<and> list_all icon_event t"
proof (induction ics arbitrary: s)
  case Nil
  show ?case by simp
next
  case (Cons ic ics)
  obtain t1 where t1: "st_trace (cut_icon env sprite ic s) = st_trace s @ t1" "list_all icon_event t1"
    using cut_icon_trace by blast
  obtain t2 where t2: "st_trace (for_icons env sprite ics (cut_icon env sprite ic s)) =
      st_trace (cut_icon env sprite ic s) @ t2" "list_all icon_event t2"
    using Cons.IH by blast
  show ?case using t1 t2 by (intro exI [of _ "t1 @ t2"]) simp
qed

subsection \<open>The four ways through \<open>main\<close>\<close>

lemma main_no_sprite:
  "\<not> path_exists env fs (SPRITE_PATH env) \<Longrightarrow>
   main env fs t0 =
     \<lparr>status = SysExit 1,
      trace = t0 @ [Print Banner, Print Rule, Exists (SPRITE_PATH env), Print SpriteNotFound,
                    Print (SearchedIn (SPRITE_PATH env)), Print CheckHint],
      final_fs = fs\<rparr>"
  by (simp add: main_def)

lemma main_mkdir_fails:
  "path_exists env fs (SPRITE_PATH env) \<Longrightarrow>
   path_mkdir env fs (OUTPUT_DIR env) True True = (Some e, fs1) \<Longrightarrow>
   main env fs t0 =
     \<lparr>status = Uncaught e,
      trace = t0 @ [Print Banner, Print Rule, Exists (SPRITE_PATH env),
                    Print (SpriteFound (SPRITE_PATH env)), Mkdir (OUTPUT_DIR env) True True],
      final_fs = fs1\<rparr>"
  by (simp add: main_def)

lemma main_open_fails:
  "path_exists env fs (SPRITE_PATH env) \<Longrightarrow>
   path_mkdir env fs (OUTPUT_DIR env) True True = (None, fs1) \<Longrightarrow>
   image_open env fs1 (SPRITE_PATH env) = Inl e \<Longrightarrow>
   main env fs t0 =
     \<lparr>status = SysExit 1, trace = t0 @ before_loop env @ [Print (OpenError e)],
      final_fs = fs1\<rparr>"
  by (simp add: main_def before_loop_def)

lemma main_loop:
  "path_exists env fs (SPRITE_PATH env) \<Longrightarrow>
   path_mkdir env fs (OUTPUT_DIR env) True True = (None, fs1) \<Longrightarrow>
   image_open env fs1 (SPRITE_PATH env) = Inr sprite \<Longrightarrow>
   main env fs t0 =
     \<lparr>status = Completed,
      trace = st_trace (for_icons env sprite ICONS (loop_start env fs1 sprite t0)) @
              map Print (summary env
                (success_count (for_icons env sprite ICONS (loop_start env fs1 sprite t0)))),
      final_fs = st_fs (for_icons env sprite ICONS (loop_start env fs1 sprite t0))\<rparr>"
  by (simp add: main_def before_loop_def loop_start_def Let_def)

lemma main_cases:
  obtains
    (no_sprite) "\<not> path_exists env fs (SPRITE_PATH env)"
  | (mkdir_fails) e fs1 where "path_exists env fs (SPRITE_PATH env)"
      "path_mkdir env fs (OUTPUT_DIR env) True True = (Some e, fs1)"
  | (open_fails) e fs1 where "path_exists env fs (SPRITE_PATH env)"
      "path_mkdir env fs (OUTPUT_DIR env) True True = (None, fs1)"
      "image_open env fs1 (SPRITE_PATH env) = Inl e"
  | (loop) sprite fs1 where "path_exists env fs (SPRITE_PATH env)"
      "path_mkdir env fs (OUTPUT_DIR env) True True = (None, fs1)"
      "image_open env fs1 (SPRITE_PATH env) = Inr sprite"
proof (cases "path_exists env fs (SPRITE_PATH env)")
  case False
  then show ?thesis by (rule no_sprite)
next
  case True
  obtain r fs1 where m: "path_mkdir env fs (OUTPUT_DIR env) True True = (r, fs1)"
    by (cases "path_mkdir env fs (OUTPUT_DIR env) True True")
  show ?thesis
  proof (cases r)
    case (Some e)
    with True m show ?thesis by (auto intro: mkdir_fails)
  next
    case None
    show ?thesis
    proof (cases "image_open env fs1 (SPRITE_PATH env)")
      case (Inl e)
      with True m None show ?thesis by (auto intro: open_fails)
    next
      case (Inr sprite)
      with True m None show ?thesis by (auto intro: loop)
    qed
  qed
qed

lemma list_all_icon_event_ImportPIL: "list_all icon_event t \<Longrightarrow> ImportPIL \<notin> set t"
  by (induction t) auto

lemma summary_no_import: "ImportPIL \<notin> set (map Print ls)"
  by auto

lemma main_import_free:
  "\<exists>rest. trace (main env fs [ImportPIL]) = ImportPIL # rest \<and> ImportPIL \<notin> set rest"
proof (cases rule: main_cases [of env fs])
  case no_sprite
  then show ?thesis by (simp add: main_no_sprite)
next
  case (mkdir_fails e fs1)
  then show ?thesis by (simp add: main_mkdir_fails)
next
  case (open_fails e fs1)
  then show ?thesis by (simp add: main_open_fails before_loop_def)
next
  case (loop sprite fs1)
  obtain t where t: "st_trace (for_icons env sprite ICONS (loop_start env fs1 sprite [ImportPIL])) =
      st_trace (loop_start env fs1 sprite [ImportPIL]) @ t" "list_all icon_event t"
    using for_icons_trace by blast
  from t(2) have "ImportPIL \<notin> set t" by (rule list_all_icon_event_ImportPIL)
  with loop t(1) show ?thesis
    by (auto simp: main_loop loop_start_def before_loop_def)
qed

lemma main_trace_start:
  "\<exists>rest. trace (main env fs t0) = t0 @ [Print Banner, Print Rule, Exists (SPRITE_PATH env)] @ rest"
proof (cases rule: main_cases [of env fs])
  case no_sprite
  then show ?thesis by (simp add: main_no_sprite)
next
  case (mkdir_fails e fs1)
  then show ?thesis by (simp add: main_mkdir_fails)
next
  case (open_fails e fs1)
  then show ?thesis by (simp add: main_open_fails before_loop_def)
next
  case (loop sprite fs1)
  obtain t where t: "st_trace (for_icons env sprite ICONS (loop_start env fs1 sprite t0)) =
      st_trace (loop_start env fs1 sprite t0) @ t"
    using for_icons_trace by blast
  with loop show ?thesis
    by (simp add: main_loop loop_start_def before_loop_def)
qed

lemma ref_sprite_path:
  "SPRITE_PATH ref_env = [''repo'', ''zones'', ''src'', ''browser'', ''assets'', ''geocaching-sprite.png'']"
  by (simp add: SPRITE_PATH_def PROJECT_ROOT_def SCRIPT_DIR_def parent_def ref_env_def)

lemma ref_output_dir:
  "OUTPUT_DIR ref_env = [''repo'', ''zones'', ''src'', ''browser'', ''assets'', ''geocache-icons'']"
  by (simp add: OUTPUT_DIR_def PROJECT_ROOT_def SCRIPT_DIR_def parent_def ref_env_def)

lemma saved_paths_script:
  "saved_paths (trace (script env fs)) = [] \<or>
   (\<exists>sprite. saved_paths (trace (script env fs)) =
      map (output_path env) (filter (\<lambda>ic. \<not> isl (image_crop env sprite (crop_box ic))) ICONS))"
proof (cases "pil_available env")
  case False
  then show ?thesis by (simp add: script_def)
next
  case True
  show ?thesis
  proof (cases rule: main_cases [of env fs])
    case no_sprite
    with True show ?thesis by (simp add: script_def main_no_sprite)
  next
    case (mkdir_fails e fs1)
    with True show ?thesis by (simp add: script_def main_mkdir_fails)
  next
    case (open_fails e fs1)
    with True show ?thesis by (simp add: script_def main_open_fails before_loop_def)
  next
    case (loop sprite fs1)
    have "saved_paths (trace (script env fs)) =
        map (output_path env) (filter (\<lambda>ic. \<not> isl (image_crop env sprite (crop_box ic))) ICONS)"
      using True loop
      by (simp add: script_def main_loop saved_paths_append for_icons_saved_paths
            saved_paths_map_Print loop_start_def before_loop_def)
    then show ?thesis by blast
  qed
qed

lemma succeeded_append: "succeeded (a @ b) = succeeded a + succeeded b"
  by (induction a rule: succeeded.induct) simp_all

lemma succeeded_map_Print_summary: "succeeded (map Print (summary env n)) = 0"
  by (simp add: summary_def)

lemma cut_icon_lines:
  "stdout (st_trace (cut_icon env sprite ic s)) =
     stdout (st_trace s) @ [icon_line ic (raised env sprite (st_fs s) ic)]"
  by (cases ic) (simp add: Let_def stdout_append split: sum.splits prod.splits option.splits)

lemma cut_icon_count:
  "success_count (cut_icon env sprite ic s) =
     success_count s + (if raised env sprite (st_fs s) ic = None then 1 else 0)"
  by (cases ic) (simp add: Let_def split: sum.splits prod.splits option.splits)

lemma cut_icon_crop_calls:
  "crop_calls (st_trace (cut_icon env sprite ic s)) = crop_calls (st_trace s) @ [crop_box ic]"
  by (cases ic) (simp add: Let_def crop_calls_append split: sum.splits prod.splits option.splits)

lemma for_icons_crop_calls:
  "crop_calls (st_trace (for_icons env sprite ics s)) = crop_calls (st_trace s) @ map crop_box ics"
  by (induction ics arbitrary: s) (simp_all add: cut_icon_crop_calls)

lemma cut_icon_succeeded:
  "succeeded (st_trace (cut_icon env sprite ic s)) =
     succeeded (st_trace s) + (if raised env sprite (st_fs s) ic = None then 1 else 0)"
  by (cases ic) (simp add: Let_def succeeded_append split: sum.splits prod.splits option.splits)

lemma for_icons_count:
  "success_count (for_icons env sprite ics s) + succeeded (st_trace s) =
     success_count s + succeeded (st_trace (for_icons env sprite ics s)) \<and>
   success_count (for_icons env sprite ics s) \<le> success_count s + length ics"
proof (induction ics arbitrary: s)
  case Nil
  show ?case by simp
next
  case (Cons ic ics)
  from Cons.IH [of "cut_icon env sprite ic s"] show ?case
    by (simp add: cut_icon_count cut_icon_succeeded split: if_splits)
qed

text \<open>The state in which the loop reaches the icon at position \<open>k\<close>.\<close>

lemma for_icons_take_Suc:
  "for_icons env sprite (take k ics) (cut_icon env sprite ic s) =
   for_icons env sprite (take (Suc k) (ic # ics)) s"
  by simp

lemma for_icons_lines:
  "stdout (st_trace (for_icons env sprite ics s)) =
     stdout (st_trace s) @
     map (\<lambda>k. icon_line (ics ! k)
                 (raised env sprite (st_fs (for_icons env sprite (take k ics) s)) (ics ! k)))
       [0..<length ics]"
proof (induction ics arbitrary: s)
  case Nil
  show ?case by simp
next
  case (Cons ic ics)
  have "[0..<length (ic # ics)] = 0 # map Suc [0..<length ics]"
    by (simp add: upt_conv_Cons map_Suc_upt del: upt_Suc)
  then show ?case
    by (simp add: Cons.IH cut_icon_lines comp_def del: upt_Suc)
qed

lemma icon_events_lines: "list_all icon_event t \<Longrightarrow> list_all is_icon_line (stdout t)"
  by (induction t rule: stdout.induct) (auto elim: icon_event.elims)

lemma icon_line_is_icon_line: "is_icon_line (icon_line ic r)"
  by (cases ic; cases r) simp_all

lemma stdout_loop_start:
  "stdout (st_trace (loop_start env fs1 sprite [ImportPIL])) =
     [Banner, Rule, SpriteFound (SPRITE_PATH env), OutputFolder (OUTPUT_DIR env),
      SpriteLoaded (fst (im_size sprite)) (snd (im_size sprite)), Cutting]"
  by (simp add: loop_start_def before_loop_def)

lemma succeeded_loop_start: "succeeded (st_trace (loop_start env fs1 sprite [ImportPIL])) = 0"
  by (simp add: loop_start_def before_loop_def)

lemma success_count_loop_start: "success_count (loop_start env fs1 sprite t0) = 0"
  by (simp add: loop_start_def)

lemma loop_count_is_succeeded:
  "success_count (for_icons env sprite ICONS (loop_start env fs1 sprite [ImportPIL])) =
   succeeded (st_trace (for_icons env sprite ICONS (loop_start env fs1 sprite [ImportPIL])))"
  using for_icons_count [of env sprite ICONS "loop_start env fs1 sprite [ImportPIL]"]
  by (simp add: succeeded_loop_start success_count_loop_start)

lemma loop_count_le:
  "success_count (for_icons env sprite ICONS (loop_start env fs1 sprite [ImportPIL])) \<le> length ICONS"
  using for_icons_count [of env sprite ICONS "loop_start env fs1 sprite [ImportPIL]"]
  by (simp add: success_count_loop_start)

lemma script_loop:
  assumes "pil_available env"
    and "path_exists env fs (SPRITE_PATH env)"
    and "path_mkdir env fs (OUTPUT_DIR env) True True = (None, fs1)"
    and "image_open env fs1 (SPRITE_PATH env) = Inr sprite"
  shows "script env fs =
     \<lparr>status = Completed,
      trace = st_trace (for_icons env sprite ICONS (loop_start env fs1 sprite [ImportPIL])) @
              map Print (summary env
                (succeeded (st_trace (for_icons env sprite ICONS
                   (loop_start env fs1 sprite [ImportPIL]))))),
      final_fs = st_fs (for_icons env sprite ICONS (loop_start env fs1 sprite [ImportPIL]))\<rparr>"
  using assms by (simp add: script_def main_loop loop_count_is_succeeded)

lemma succeeded_script_loop:
  assumes "pil_available env"
    and "path_exists env fs (SPRITE_PATH env)"
    and "path_mkdir env fs (OUTPUT_DIR env) True True = (None, fs1)"
    and "image_open env fs1 (SPRITE_PATH env) = Inr sprite"
  shows "succeeded (trace (script env fs)) =
         succeeded (st_trace (for_icons env sprite ICONS (loop_start env fs1 sprite [ImportPIL])))"
  by (simp add: script_loop [OF assms] succeeded_append succeeded_map_Print_summary)

lemma loop_lines_not_summary:
  assumes "l \<in> set (stdout (st_trace (for_icons env sprite ICONS
                      (loop_start env fs1 sprite [ImportPIL]))))"
  shows "l \<noteq> AllSucceeded \<and> l \<noteq> SomeFailed n"
proof -
  obtain t where t: "st_trace (for_icons env sprite ICONS (loop_start env fs1 sprite [ImportPIL])) =
      st_trace (loop_start env fs1 sprite [ImportPIL]) @ t" "list_all icon_event t"
    using for_icons_trace by blast
  from t(2) have "list_all is_icon_line (stdout t)" by (rule icon_events_lines)
  then have "\<forall>l \<in> set (stdout t). is_icon_line l" by (simp add: list_all_iff)
  with assms t(1) show ?thesis
    by (auto simp: stdout_append stdout_loop_start)
qed

lemma ref_pil: "pil_available ref_env"
  by (simp add: ref_env_def)

lemma ref_exists: "path_exists ref_env (ref_fs w h) (SPRITE_PATH ref_env)"
  by (simp add: ref_sprite_path) (simp add: ref_env_def ref_fs_def)

lemma ref_mkdir:
  "path_mkdir ref_env (ref_fs w h) (OUTPUT_DIR ref_env) True True = (None, ref_fs1 w h)"
  unfolding ref_fs1_def ref_output_dir by (simp add: ref_env_def ref_fs_def)

lemma ref_fs1_files: "files (ref_fs1 w h) = files (ref_fs w h)"
  unfolding ref_fs1_def ref_output_dir by (simp add: ref_env_def ref_fs_def)

lemma ref_fs1_dirs: "OUTPUT_DIR ref_env \<in> dirs (ref_fs1 w h)"
  unfolding ref_fs1_def ref_output_dir
  apply (simp add: ref_env_def ref_fs_def)
  apply (rule image_eqI [where x = 6])
   apply simp_all
  done

lemma ref_open:
  "image_open ref_env (ref_fs1 w h) (SPRITE_PATH ref_env) =
     Inr \<lparr>im_size = (int w, int h), im_pixel = (\<lambda>i j. 7 + nat i + nat j * w)\<rparr>"
  by (simp add: ref_sprite_path)
     (simp add: ref_env_def ref_fs1_files ref_fs_def toy_decode_def)

lemma set_stdout: "l \<in> set (stdout t) \<longleftrightarrow> Print l \<in> set t"
  by (induction t rule: stdout.induct) auto

lemma icon_line_Some: "icon_line ic (Some e) = IconError (fst ic) e"
  by (cases ic) simp

lemma filter_icon_lines_summary: "filter is_icon_line (summary env n) = []"
  by (simp add: summary_def)

lemma filter_icon_lines_map:
  "filter is_icon_line (map (\<lambda>k. icon_line (f k) (g k)) ks) = map (\<lambda>k. icon_line (f k) (g k)) ks"
  by (induction ks) (simp_all add: icon_line_is_icon_line)

lemma saved_paths_takeWhile: "saved_paths t = [] \<Longrightarrow> saved_paths (takeWhile P t) = []"
  by (induction t rule: saved_paths.induct) (auto split: if_splits)

lemma cut_icon_frame:
  assumes "save_frame env" and "q \<noteq> output_path env ic"
  shows "files (st_fs (cut_icon env sprite ic s)) q = files (st_fs s) q"
proof (cases ic)
  case (fields name x y w h)
  show ?thesis
  proof (cases "image_crop env sprite (x, y, x + w, y + h)")
    case (Inl e)
    with fields show ?thesis by simp
  next
    case (Inr icon)
    have "files (snd (image_save env (st_fs s) (output_path env ic) icon ''PNG'')) q =
          files (st_fs s) q"
      using assms by (simp add: save_frame_def)
    with fields Inr show ?thesis
      by (cases "image_save env (st_fs s) (output_path env ic) icon ''PNG''")
         (auto simp: Let_def split: option.splits)
  qed
qed

lemma for_icons_frame:
  assumes "save_frame env" and "q \<notin> output_path env ` set ics"
  shows "files (st_fs (for_icons env sprite ics s)) q = files (st_fs s) q"
  using assms(2)
proof (induction ics arbitrary: s)
  case Nil
  show ?case by simp
next
  case (Cons ic ics)
  from Cons.prems have "q \<noteq> output_path env ic" "q \<notin> output_path env ` set ics"
    by auto
  then show ?case
    by (simp add: Cons.IH cut_icon_frame [OF assms(1)])
qed

lemma st_fs_loop_start: "st_fs (loop_start env fs1 sprite t0) = fs1"
  by (simp add: loop_start_def)

lemma saved_paths_loop_start: "saved_paths (st_trace (loop_start env fs1 sprite [ImportPIL])) = []"
  by (simp add: loop_start_def before_loop_def)

lemma takeWhile_loop:
  assumes "st_trace s = st_trace (loop_start env fs1 sprite [ImportPIL]) @ t"
  shows "takeWhile (\<lambda>ev. ev \<noteq> Mkdir (OUTPUT_DIR env) True True) (st_trace s @ u) =
         [ImportPIL, Print Banner, Print Rule, Exists (SPRITE_PATH env),
          Print (SpriteFound (SPRITE_PATH env))]"
  by (simp add: assms loop_start_def before_loop_def)

lemma ref_save_frame: "save_frame ref_env"
  by (simp add: save_frame_def ref_env_def)

lemma ref_mkdir_frame: "mkdir_frame ref_env"
  by (simp add: mkdir_frame_def ref_env_def)

lemma ref_crops: "\<not> isl (image_crop ref_env sprite (crop_box ic)) \<longleftrightarrow>
    (case crop_box ic of (l, u, r, lo) \<Rightarrow> l \<le> r \<and> u \<le> lo)"
  by (cases ic) (auto simp: ref_env_def pil_crop_def)

lemma ref_saved_paths:
  "saved_paths (trace (script ref_env (ref_fs 1550 50))) = map (output_path ref_env) ICONS"
proof -
  have "filter (\<lambda>ic. \<not> isl (image_crop ref_env sprite (crop_box ic))) ICONS = ICONS" for sprite
    unfolding ref_crops by (simp add: ICONS_def)
  then show ?thesis
    by (simp add: script_loop [OF ref_pil ref_exists ref_mkdir ref_open] saved_paths_append
          saved_paths_map_Print for_icons_saved_paths saved_paths_loop_start)
qed

lemma sprite_not_output: "SPRITE_PATH env \<notin> output_path env ` set ics"
proof
  assume "SPRITE_PATH env \<in> output_path env ` set ics"
  then obtain ic where "SPRITE_PATH env = output_path env ic" by blast
  then show False
    by (cases ic) (simp add: SPRITE_PATH_def OUTPUT_DIR_def)
qed

lemma parent_in_output_dir: "parent (OUTPUT_DIR env @ [x]) = OUTPUT_DIR env"
proof -
  have "length (OUTPUT_DIR env @ [x]) \<noteq> length [''/'']"
    by (simp add: OUTPUT_DIR_def)
  then have "OUTPUT_DIR env @ [x] \<noteq> [''/'']" by metis
  then show ?thesis by (simp add: parent_def)
qed

lemma parent_output_path: "parent (output_path env ic) = OUTPUT_DIR env"
  by (cases ic) (simp add: parent_in_output_dir)

lemma cut_icon_contract:
  assumes "save_contract env enc" and "OUTPUT_DIR env \<in> dirs (st_fs s)"
  shows "cut_icon env sprite ic s =
     \<lparr>st_fs = (st_fs s)\<lparr>files := saved_files env enc sprite [ic] (files (st_fs s))\<rparr>,
      st_trace = st_trace s @ saving_events env sprite ic,
      success_count = success_count s + length (cropped env sprite [ic])\<rparr>"
proof (cases ic)
  case (fields name x y w h)
  show ?thesis
  proof (cases "image_crop env sprite (x, y, x + w, y + h)")
    case (Inl e)
    with fields show ?thesis by (simp add: cropped_def)
  next
    case (Inr out)
    have "parent (OUTPUT_DIR env @ [name @ ''.png'']) \<in> dirs (st_fs s)"
      using assms(2) by (simp add: parent_in_output_dir)
    then have "image_save env (st_fs s) (OUTPUT_DIR env @ [name @ ''.png'']) out ''PNG'' =
        (None, (st_fs s)\<lparr>files := (files (st_fs s))(OUTPUT_DIR env @ [name @ ''.png''] \<mapsto> enc out)\<rparr>)"
      using assms(1) by (simp add: save_contract_def)
    with fields Inr show ?thesis by (simp add: cropped_def Let_def)
  qed
qed

lemma for_icons_contract:
  assumes "save_contract env enc" and "OUTPUT_DIR env \<in> dirs (st_fs s)"
  shows "for_icons env sprite ics s =
     \<lparr>st_fs = (st_fs s)\<lparr>files := saved_files env enc sprite ics (files (st_fs s))\<rparr>,
      st_trace = st_trace s @ concat (map (saving_events env sprite) ics),
      success_count = success_count s + length (cropped env sprite ics)\<rparr>"
  using assms(2)
proof (induction ics arbitrary: s)
  case Nil
  show ?case by (cases s) (simp add: cropped_def)
next
  case (Cons ic ics)
  let ?s1 = "cut_icon env sprite ic s"
  have s1: "?s1 =
     \<lparr>st_fs = (st_fs s)\<lparr>files := saved_files env enc sprite [ic] (files (st_fs s))\<rparr>,
      st_trace = st_trace s @ saving_events env sprite ic,
      success_count = success_count s + length (cropped env sprite [ic])\<rparr>"
    by (rule cut_icon_contract [OF assms(1) Cons.prems])
  then have "OUTPUT_DIR env \<in> dirs (st_fs ?s1)"
    using Cons.prems by simp
  from Cons.IH [OF this] show ?case
    by (simp add: s1 cropped_def)
qed

lemma saved_files_other:
  "q \<notin> output_path env ` set ics \<Longrightarrow> saved_files env enc sprite ics f q = f q"
  by (induction ics arbitrary: f) (auto split: sum.splits)

lemma saved_files_at:
  assumes "distinct (map (output_path env) ics)" and "ic \<in> set ics"
  shows "saved_files env enc sprite ics f (output_path env ic) =
     (case image_crop env sprite (crop_box ic) of
        Inl e \<Rightarrow> f (output_path env ic)
      | Inr out \<Rightarrow> Some (enc out))"
  using assms
proof (induction ics arbitrary: f)
  case Nil
  then show ?case by simp
next
  case (Cons a ics)
  show ?case
  proof (cases "ic = a")
    case True
    with Cons.prems have "output_path env ic \<notin> output_path env ` set ics" by auto
    then show ?thesis
      using True by (simp add: saved_files_other split: sum.splits)
  next
    case False
    with Cons.prems have in_rest: "ic \<in> set ics" and d: "distinct (map (output_path env) ics)"
      and ne: "output_path env a \<noteq> output_path env ic"
      by auto
    show ?thesis
      using ne by (simp add: Cons.IH [OF d in_rest] split: sum.splits)
  qed
qed

lemma saved_paths_saving_events:
  "saved_paths (concat (map (saving_events env sprite) ics)) =
     map (output_path env) (cropped env sprite ics)"
proof (induction ics)
  case Nil
  show ?case by (simp add: cropped_def)
next
  case (Cons ic ics)
  then show ?case
    by (cases ic) (simp add: cropped_def saved_paths_append split: sum.splits)
qed

lemma succeeded_saving_events:
  "succeeded (concat (map (saving_events env sprite) ics)) = length (cropped env sprite ics)"
proof (induction ics)
  case Nil
  show ?case by (simp add: cropped_def)
next
  case (Cons ic ics)
  then show ?case
    by (cases ic) (simp add: cropped_def succeeded_append split: sum.splits)
qed

lemma saving_events_line:
  assumes "(name, x, y, w, h) \<in> set ics"
  shows "Print (case image_crop env sprite (x, y, x + w, y + h) of
                  Inl e \<Rightarrow> IconError name e
                | Inr out \<Rightarrow> IconSaved name x y (name @ ''.png''))
         \<in> set (concat (map (saving_events env sprite) ics))"
proof -
  have "Print (case image_crop env sprite (x, y, x + w, y + h) of
                  Inl e \<Rightarrow> IconError name e
                | Inr out \<Rightarrow> IconSaved name x y (name @ ''.png''))
        \<in> set (saving_events env sprite (name, x, y, w, h))"
    by (simp split: sum.splits)
  moreover from assms have "saving_events env sprite (name, x, y, w, h)
      \<in> set (map (saving_events env sprite) ics)"
    by (simp only: set_map) (rule imageI)
  ultimately show ?thesis
    by (simp only: set_concat) (rule UN_I)
qed

lemma script_contract:
  assumes "pil_available env"
    and "path_exists env fs (SPRITE_PATH env)"
    and "path_mkdir env fs (OUTPUT_DIR env) True True = (None, fs1)"
    and "image_open env fs1 (SPRITE_PATH env) = Inr sprite"
    and "OUTPUT_DIR env \<in> dirs fs1"
    and "save_contract env enc"
  shows "script env fs =
     \<lparr>status = Completed,
      trace = st_trace (loop_start env fs1 sprite [ImportPIL]) @
              concat (map (saving_events env sprite) ICONS) @
              map Print (summary env (length (cropped env sprite ICONS))),
      final_fs = fs1\<lparr>files := saved_files env enc sprite ICONS (files fs1)\<rparr>\<rparr>"
proof -
  have "OUTPUT_DIR env \<in> dirs (st_fs (loop_start env fs1 sprite [ImportPIL]))"
    using assms(5) by (simp add: st_fs_loop_start)
  from for_icons_contract [OF assms(6) this, of sprite ICONS] show ?thesis
    using assms(1-4)
    by (simp add: script_def main_loop st_fs_loop_start success_count_loop_start)
qed

lemma icons_inside:
  assumes "1550 \<le> fst (im_size sprite)" and "50 \<le> snd (im_size sprite)"
  shows "\<forall>ic \<in> set ICONS. inside sprite (crop_box ic)"
  using assms by (simp add: ICONS_def inside_def)

lemma crop_inside:
  assumes "crop_contract env" and "inside sprite (x, y, x + w, y + h)"
  obtains out where "image_crop env sprite (x, y, x + w, y + h) = Inr out"
    and "im_size out = (w, h)"
    and "\<forall>i \<in> {0..<w}. \<forall>j \<in> {0..<h}. im_pixel out i j = im_pixel sprite (x + i) (y + j)"
proof -
  from assms have c: "case image_crop env sprite (x, y, x + w, y + h) of
      Inl e \<Rightarrow> False | Inr out \<Rightarrow> is_region sprite (x, y, x + w, y + h) out"
    unfolding crop_contract_def by blast
  then obtain out where o: "image_crop env sprite (x, y, x + w, y + h) = Inr out"
    by (cases "image_crop env sprite (x, y, x + w, y + h)") auto
  with c have "is_region sprite (x, y, x + w, y + h) out" by simp
  then have "im_size out = (w, h)"
    and "\<forall>i \<in> {0..<w}. \<forall>j \<in> {0..<h}. im_pixel out i j = im_pixel sprite (x + i) (y + j)"
    by (simp_all add: is_region_def)
  with o show thesis by (rule that)
qed

lemma cropped_all:
  assumes "crop_contract env" and "\<forall>ic \<in> set ics. inside sprite (crop_box ic)"
  shows "cropped env sprite ics = ics"
proof -
  have "\<not> isl (image_crop env sprite (crop_box ic))" if "ic \<in> set ics" for ic
  proof (cases ic)
    case (fields name x y w h)
    with that assms(2) have "inside sprite (x, y, x + w, y + h)" by force
    from crop_inside [OF assms(1) this] fields show ?thesis by force
  qed
  then show ?thesis by (simp add: cropped_def)
qed



lemma cropped_subset: "set (cropped env sprite ics) \<subseteq> set ics"
  by (simp add: cropped_def)

lemma cropped_isr: "ic \<in> set (cropped env sprite ics) \<Longrightarrow> \<exists>out. image_crop env sprite (crop_box ic) = Inr out"
  by (cases "image_crop env sprite (crop_box ic)") (simp_all add: cropped_def)

lemma icon_eq_by_name:
  assumes "distinct (map fst ics)" and "a \<in> set ics" and "b \<in> set ics" and "fst a = fst b"
  shows "a = b"
  using assms by (meson distinct_map inj_onD)

lemma not_cropped_not_saved:
  assumes "distinct (map fst ics)" and "ic \<in> set ics"
    and "image_crop env sprite (crop_box ic) = Inl e"
  shows "output_path env ic \<notin> output_path env ` set (cropped env sprite ics)"
proof
  assume "output_path env ic \<in> output_path env ` set (cropped env sprite ics)"
  then obtain b where b: "b \<in> set (cropped env sprite ics)"
    and eq: "output_path env ic = output_path env b"
    by blast
  from b have "b \<in> set ics" using cropped_subset by blast
  with assms(1,2) eq have "ic = b" by (auto simp: output_path_inj intro: icon_eq_by_name)
  with b assms(3) show False using cropped_isr by fastforce
qed

lemma ref_save_contract: "save_contract ref_env toy_png"
  by (simp add: save_contract_def ref_env_def)

lemma ref_crop_contract: "crop_contract ref_env"
  by (auto simp: crop_contract_def ref_env_def pil_crop_def inside_def is_region_def)



lemma ref_mkdir_contract: "mkdir_contract ref_env"
proof -
  have "p \<in> (\<lambda>n. take n p) ` {0..length p}" for p :: path
    by (rule image_eqI [where x = "length p"]) simp_all
  moreover have "take n p \<in> (\<lambda>n. take n p) ` {0..length p}" if "n \<le> length p"
    for p :: path and n
    using that by simp
  ultimately show ?thesis
    by (auto simp: mkdir_contract_def ref_env_def split: if_splits)
qed

lemma ref_crop: "image_crop ref_env = pil_crop"
  by (simp add: ref_env_def)

lemma cut_icon_fs:
  "st_fs (cut_icon env sprite ic s) =
     (case image_crop env sprite (crop_box ic) of
        Inl e \<Rightarrow> st_fs s
      | Inr icon \<Rightarrow> snd (image_save env (st_fs s) (output_path env ic) icon ''PNG''))"
  by (cases ic) (simp add: Let_def split: sum.splits prod.splits option.splits)

lemma cut_icon_dirs:
  assumes "save_keeps_dirs env"
  shows "dirs (st_fs (cut_icon env sprite ic s)) = dirs (st_fs s)"
proof (cases "image_crop env sprite (crop_box ic)")
  case (Inl e)
  then show ?thesis by (simp add: cut_icon_fs)
next
  case (Inr icon)
  from assms have "dirs (snd (image_save env (st_fs s) (output_path env ic) icon ''PNG'')) =
      dirs (st_fs s)"
    unfolding save_keeps_dirs_def by blast
  with Inr show ?thesis by (simp add: cut_icon_fs)
qed

lemma for_icons_dirs:
  assumes "save_keeps_dirs env"
  shows "dirs (st_fs (for_icons env sprite ics s)) = dirs (st_fs s)"
  by (induction ics arbitrary: s) (simp_all add: cut_icon_dirs [OF assms])

lemma raised_eq:
  "raised env sprite fs ic =
     (case image_crop env sprite (crop_box ic) of
        Inl e \<Rightarrow> Some e
      | Inr icon \<Rightarrow> fst (image_save env fs (output_path env ic) icon ''PNG''))"
  by (cases ic) (simp split: sum.splits)

lemma raised_local:
  assumes "save_local env" and "dirs fs = dirs fs'"
    and "files fs (output_path env ic) = files fs' (output_path env ic)"
  shows "raised env sprite fs ic = raised env sprite fs' ic"
proof (cases "image_crop env sprite (crop_box ic)")
  case (Inl e)
  then show ?thesis by (simp add: raised_eq)
next
  case (Inr icon)
  from assms have "fst (image_save env fs (output_path env ic) icon ''PNG'') =
      fst (image_save env fs' (output_path env ic) icon ''PNG'')"
    unfolding save_local_def by blast
  with Inr show ?thesis by (simp add: raised_eq)
qed

lemma own_file_local:
  assumes "save_local env" and "dirs (st_fs s) = dirs (st_fs s')"
    and "files (st_fs s) (output_path env ic) = files (st_fs s') (output_path env ic)"
  shows "files (st_fs (cut_icon env sprite ic s)) (output_path env ic) =
         files (st_fs (cut_icon env sprite ic s')) (output_path env ic)"
proof (cases "image_crop env sprite (crop_box ic)")
  case (Inl e)
  with assms(3) show ?thesis by (simp add: cut_icon_fs)
next
  case (Inr icon)
  from assms have "files (snd (image_save env (st_fs s) (output_path env ic) icon ''PNG''))
        (output_path env ic) =
      files (snd (image_save env (st_fs s') (output_path env ic) icon ''PNG''))
        (output_path env ic)"
    unfolding save_local_def by blast
  with Inr show ?thesis by (simp add: cut_icon_fs)
qed

lemma for_icons_local:
  assumes fr: "save_frame env" and kd: "save_keeps_dirs env" and lo: "save_local env"
    and "distinct (map fst ics)"
    and "dirs (st_fs s) = dirs (st_fs base)"
    and "\<forall>ic \<in> set ics. files (st_fs s) (output_path env ic) = files (st_fs base) (output_path env ic)"
  shows "stdout (st_trace (for_icons env sprite ics s)) =
           stdout (st_trace s) @ map (\<lambda>ic. icon_line ic (raised env sprite (st_fs base) ic)) ics \<and>
         (\<forall>ic \<in> set ics.
            files (st_fs (for_icons env sprite ics s)) (output_path env ic) =
            files (st_fs (cut_icon env sprite ic base)) (output_path env ic))"
  using assms(4-6)
proof (induction ics arbitrary: s)
  case Nil
  show ?case by simp
next
  case (Cons ic ics)
  let ?s1 = "cut_icon env sprite ic s"
  from Cons.prems(1) have d: "distinct (map fst ics)" and fresh: "fst ic \<notin> fst ` set ics"
    by simp_all
  have other: "output_path env ic' \<noteq> output_path env ic" if "ic' \<in> set ics" for ic'
  proof
    assume "output_path env ic' = output_path env ic"
    then have "fst ic' = fst ic" by (simp add: output_path_inj)
    with that have "fst ic \<in> fst ` set ics" by (metis imageI)
    with fresh show False by contradiction
  qed
  have here: "files (st_fs s) (output_path env ic) = files (st_fs base) (output_path env ic)"
    using Cons.prems(3) by simp
  have line: "stdout (st_trace ?s1) =
      stdout (st_trace s) @ [icon_line ic (raised env sprite (st_fs base) ic)]"
    by (simp add: cut_icon_lines raised_local [OF lo Cons.prems(2) here])
  have dirs1: "dirs (st_fs ?s1) = dirs (st_fs base)"
    by (simp add: cut_icon_dirs [OF kd] Cons.prems(2))
  have files1: "\<forall>ic' \<in> set ics.
      files (st_fs ?s1) (output_path env ic') = files (st_fs base) (output_path env ic')"
    using Cons.prems(3) other by (simp add: cut_icon_frame [OF fr])
  note IH = Cons.IH [OF d dirs1 files1]
  have "output_path env ic \<notin> output_path env ` set ics"
    using other by force
  then have "files (st_fs (for_icons env sprite ics ?s1)) (output_path env ic) =
      files (st_fs ?s1) (output_path env ic)"
    by (rule for_icons_frame [OF fr])
  also have "\<dots> = files (st_fs (cut_icon env sprite ic base)) (output_path env ic)"
    by (rule own_file_local [OF lo Cons.prems(2) here])
  finally have own: "files (st_fs (for_icons env sprite ics ?s1)) (output_path env ic) =
      files (st_fs (cut_icon env sprite ic base)) (output_path env ic)" .
  from IH line own show ?case by simp
qed

lemma filter_icon_lines_each:
  "filter is_icon_line (map (\<lambda>ic. icon_line ic (g ic)) ics) = map (\<lambda>ic. icon_line ic (g ic)) ics"
  by (induction ics) (simp_all add: icon_line_is_icon_line)

lemma raised_crop_fails:
  "image_crop env sprite (crop_box ic) = Inl e \<Longrightarrow> raised env sprite fs' ic = Some e"
  by (simp add: raised_eq)

lemma crop_override:
  "pil_available (ref_env\<lparr>image_crop := c\<rparr>)"
  "SPRITE_PATH (ref_env\<lparr>image_crop := c\<rparr>) = SPRITE_PATH ref_env"
  "OUTPUT_DIR (ref_env\<lparr>image_crop := c\<rparr>) = OUTPUT_DIR ref_env"
  "path_exists (ref_env\<lparr>image_crop := c\<rparr>) = path_exists ref_env"
  "path_mkdir (ref_env\<lparr>image_crop := c\<rparr>) = path_mkdir ref_env"
  "image_open (ref_env\<lparr>image_crop := c\<rparr>) = image_open ref_env"
  "image_save (ref_env\<lparr>image_crop := c\<rparr>) = image_save ref_env"
  "image_crop (ref_env\<lparr>image_crop := c\<rparr>) = c"
  by (simp_all add: ref_env_def SPRITE_PATH_def OUTPUT_DIR_def PROJECT_ROOT_def SCRIPT_DIR_def)

lemma override_exists:
  "path_exists (ref_env\<lparr>image_crop := c\<rparr>) (ref_fs w h) (SPRITE_PATH (ref_env\<lparr>image_crop := c\<rparr>))"
  by (simp add: crop_override ref_exists)

lemma override_mkdir:
  "path_mkdir (ref_env\<lparr>image_crop := c\<rparr>) (ref_fs w h) (OUTPUT_DIR (ref_env\<lparr>image_crop := c\<rparr>))
     True True = (None, ref_fs1 w h)"
  by (simp add: crop_override ref_mkdir)

lemma override_open:
  "image_open (ref_env\<lparr>image_crop := c\<rparr>) (ref_fs1 w h) (SPRITE_PATH (ref_env\<lparr>image_crop := c\<rparr>)) =
     Inr \<lparr>im_size = (int w, int h), im_pixel = (\<lambda>i j. 7 + nat i + nat j * w)\<rparr>"
  by (simp add: crop_override ref_open)

lemma ref_save_keeps_dirs: "save_keeps_dirs ref_env"
  by (simp add: save_keeps_dirs_def ref_env_def)

lemma ref_save_local: "save_local ref_env"
  by (simp add: save_local_def ref_env_def)

lemma override_contracts:
  "save_frame (ref_env\<lparr>image_crop := c\<rparr>)"
  "save_keeps_dirs (ref_env\<lparr>image_crop := c\<rparr>)"
  "save_local (ref_env\<lparr>image_crop := c\<rparr>)"
  by (simp_all add: save_frame_def save_keeps_dirs_def save_local_def ref_env_def)

lemma ref_save_ok:
  "fst (image_save ref_env (ref_fs1 w h) (OUTPUT_DIR ref_env @ [x]) img fmt) = None"
proof -
  have "parent (OUTPUT_DIR ref_env @ [x]) \<in> dirs (ref_fs1 w h)"
    by (simp only: parent_in_output_dir ref_fs1_dirs)
  then show ?thesis by (simp add: ref_env_def)
qed

lemma ape_run:
  "pil_available ape_env"
  "path_exists ape_env (ref_fs w h) (SPRITE_PATH ape_env)"
  "path_mkdir ape_env (ref_fs w h) (OUTPUT_DIR ape_env) True True = (None, ref_fs1 w h)"
  "image_open ape_env (ref_fs1 w h) (SPRITE_PATH ape_env) =
     Inr \<lparr>im_size = (int w, int h), im_pixel = (\<lambda>i j. 7 + nat i + nat j * w)\<rparr>"
  unfolding ape_env_def
  by (rule crop_override(1) override_exists override_mkdir override_open)+

lemma ape_contracts: "save_frame ape_env" "save_keeps_dirs ape_env" "save_local ape_env"
  unfolding ape_env_def by (rule override_contracts)+



section \<open>The claims\<close>

text \<open>
  C4. When the sprite sheet is not at \<open>SPRITE_PATH\<close>, the run prints a diagnostic that
  names the path it looked at, ends with \<open>sys.exit(1)\<close>, saves nothing, never calls
  \<open>mkdir\<close> and leaves the file system as it found it. In every run the call of
  \<open>exists\<close> comes before the first \<open>mkdir\<close>.
\<close>

theorem missing_sprite:
  "(pil_available env \<longrightarrow>
      Exists (SPRITE_PATH env) \<in> set (takeWhile (\<lambda>ev. \<not> is_mkdir ev) (trace (script env fs)))) \<and>
   (pil_available env \<and> \<not> path_exists env fs (SPRITE_PATH env) \<longrightarrow>
      script env fs =
        \<lparr>status = SysExit 1,
         trace = [ImportPIL, Print Banner, Print Rule, Exists (SPRITE_PATH env),
                  Print SpriteNotFound, Print (SearchedIn (SPRITE_PATH env)), Print CheckHint],
         final_fs = fs\<rparr> \<and>
      exit_code (status (script env fs)) \<noteq> 0 \<and>
      saved_paths (trace (script env fs)) = [] \<and>
      (\<forall>ev \<in> set (trace (script env fs)). \<not> is_mkdir ev))"
proof -
  obtain rest where "trace (main env fs [ImportPIL]) =
      [ImportPIL] @ [Print Banner, Print Rule, Exists (SPRITE_PATH env)] @ rest"
    using main_trace_start by blast
  then show ?thesis
    by (simp add: script_def main_no_sprite)
qed

theorem missing_sprite_witness:
  "script ref_env empty_fs =
     \<lparr>status = SysExit 1,
      trace = [ImportPIL, Print Banner, Print Rule, Exists (SPRITE_PATH ref_env),
               Print SpriteNotFound, Print (SearchedIn (SPRITE_PATH ref_env)), Print CheckHint],
      final_fs = empty_fs\<rparr>"
  using missing_sprite [of ref_env empty_fs]
  by (simp add: ref_env_def empty_fs_def)

text \<open>
  C5. The import of PIL is the first event of every run and happens once. When it fails,
  the run consists of that import and two printed lines (the second one tells how to
  install Pillow), ends with \<open>sys.exit(1)\<close>, and touches no file: no \<open>exists\<close>,
  \<open>mkdir\<close>, \<open>open\<close> or \<open>save\<close> is in the trace.
\<close>

theorem import_guard:
  "(\<exists>rest. trace (script env fs) = ImportPIL # rest \<and> ImportPIL \<notin> set rest) \<and>
   (\<not> pil_available env \<longrightarrow>
      script env fs =
        \<lparr>status = SysExit 1, trace = [ImportPIL, Print PilMissing, Print PilInstallHint],
         final_fs = fs\<rparr> \<and>
      exit_code (status (script env fs)) \<noteq> 0)"
  using main_import_free [of env fs] by (simp add: script_def)

theorem import_guard_witness:
  "script (ref_env\<lparr>pil_available := False\<rparr>) (ref_fs 1550 50) =
     \<lparr>status = SysExit 1, trace = [ImportPIL, Print PilMissing, Print PilInstallHint],
      final_fs = ref_fs 1550 50\<rparr>"
  using import_guard [of "ref_env\<lparr>pil_available := False\<rparr>" "ref_fs 1550 50"]
  by simp



text \<open>
  C10. The sixteen names of \<open>ICONS\<close> are pairwise distinct, hence so are the sixteen
  output paths, and no run saves twice to the same path.
\<close>

theorem no_output_clash:
  "length ICONS = 16 \<and> distinct (map fst ICONS) \<and> distinct (map (output_path env) ICONS) \<and>
   distinct (saved_paths (trace (script env fs)))"
proof -
  have d: "distinct (map (output_path env) ICONS)"
    using names_distinct by (rule output_paths_distinct)
  then have "distinct (map (output_path env) (filter P ICONS))" for P
    by (rule distinct_map_filter)
  with saved_paths_script [of env fs] have "distinct (saved_paths (trace (script env fs)))"
    by auto
  with d names_distinct show ?thesis by (simp add: ICONS_def)
qed

text \<open>
  C7. In a run that reaches the loop, the number of icons reported as saved is at most
  \<open>len(ICONS)\<close>, which is 16. The output ends with the rule, the line
  \<open>succeeded/16\<close>, then either the two lines of the all-succeeded message (exactly when
  the count is 16) or the line with the number of failures \<open>16 - succeeded\<close>, and in both
  cases the two lines that give \<open>OUTPUT_DIR\<close>. Nothing before the summary looks like
  either message.
\<close>

theorem summary_counts:
  assumes "r = script env fs"
    and "pil_available env"
    and "path_exists env fs (SPRITE_PATH env)"
    and "path_mkdir env fs (OUTPUT_DIR env) True True = (None, fs1)"
    and "image_open env fs1 (SPRITE_PATH env) = Inr sprite"
  shows "length ICONS = 16 \<and> succeeded (trace r) \<le> 16 \<and>
         (\<exists>pre. stdout (trace r) =
                  pre @ [BlankRule, Finished (succeeded (trace r)) 16] @
                  (if succeeded (trace r) = 16 then [AllSucceeded, ReadyToBuild]
                   else [SomeFailed (16 - int (succeeded (trace r)))]) @
                  [SavedIn, Folder (OUTPUT_DIR env)] \<and>
                AllSucceeded \<notin> set pre \<and> (\<forall>n. SomeFailed n \<notin> set pre)) \<and>
         (AllSucceeded \<in> set (stdout (trace r)) \<longleftrightarrow> succeeded (trace r) = 16)"
proof -
  let ?s = "for_icons env sprite ICONS (loop_start env fs1 sprite [ImportPIL])"
  let ?n = "succeeded (trace r)"
  have len: "length ICONS = 16" by (simp add: ICONS_def)
  have n: "?n = succeeded (st_trace ?s)"
    unfolding assms(1) by (rule succeeded_script_loop [OF assms(2-5)])
  have le: "?n \<le> 16"
    using loop_count_le [of env sprite fs1] len by (simp add: n loop_count_is_succeeded)
  have tr: "trace r = st_trace ?s @ map Print (summary env (succeeded (st_trace ?s)))"
    by (simp add: assms(1) script_loop [OF assms(2-5)])
  have out: "stdout (trace r) = stdout (st_trace ?s) @ summary env ?n"
    by (simp add: tr stdout_append stdout_map_Print succeeded_append succeeded_map_Print_summary)
  have pre: "AllSucceeded \<notin> set (stdout (st_trace ?s))" "\<forall>n. SomeFailed n \<notin> set (stdout (st_trace ?s))"
    using loop_lines_not_summary [of _ env sprite fs1] by blast+
  have shape: "summary env ?n =
      [BlankRule, Finished ?n 16] @
      (if ?n = 16 then [AllSucceeded, ReadyToBuild] else [SomeFailed (16 - int ?n)]) @
      [SavedIn, Folder (OUTPUT_DIR env)]"
    by (simp add: summary_def len)
  have ex: "\<exists>pre. stdout (trace r) =
                  pre @ [BlankRule, Finished ?n 16] @
                  (if ?n = 16 then [AllSucceeded, ReadyToBuild] else [SomeFailed (16 - int ?n)]) @
                  [SavedIn, Folder (OUTPUT_DIR env)] \<and>
                AllSucceeded \<notin> set pre \<and> (\<forall>n. SomeFailed n \<notin> set pre)"
    using out pre shape by (intro exI [of _ "stdout (st_trace ?s)"]) simp
  have iff: "AllSucceeded \<in> set (stdout (trace r)) \<longleftrightarrow> ?n = 16"
    using pre(1) by (simp add: out shape)
  from len le ex iff show ?thesis by blast
qed

theorem summary_counts_witness:
  "succeeded (trace (script ref_env (ref_fs 1550 50))) \<le> 16 \<and>
   (AllSucceeded \<in> set (stdout (trace (script ref_env (ref_fs 1550 50)))) \<longleftrightarrow>
    succeeded (trace (script ref_env (ref_fs 1550 50))) = 16)"
  using summary_counts [OF refl ref_pil ref_exists ref_mkdir ref_open, of 1550 50]
  by blast

text \<open>
  C1. Given a sprite sheet that opens, is at least 1550 pixels wide and 50 high, a
  \<open>crop\<close> that returns the region of a box within the image, and a \<open>save\<close> that writes
  the PNG encoding \<open>enc\<close> of what it is given: the run completes, saves exactly to the 16
  pairwise distinct paths \<open>OUTPUT_DIR/name.png\<close>, one per descriptor and in the order of
  \<open>ICONS\<close>, reports 16 icons saved, and for every descriptor \<open>(name, x, y, w, h)\<close> the
  file at its path holds the encoding of an image of size \<open>w\<close> by \<open>h\<close> whose pixel
  \<open>(i, j)\<close> is the pixel \<open>(x + i, y + j)\<close> of the sprite sheet, for \<open>0 \<le> i < w\<close> and
  \<open>0 \<le> j < h\<close>. No other file differs from what \<open>mkdir\<close> left.
\<close>

theorem all_icons_extracted:
  assumes "r = script env fs"
    and "pil_available env"
    and "path_exists env fs (SPRITE_PATH env)"
    and "path_mkdir env fs (OUTPUT_DIR env) True True = (None, fs1)"
    and "image_open env fs1 (SPRITE_PATH env) = Inr sprite"
    and "OUTPUT_DIR env \<in> dirs fs1"
    and "save_contract env enc"
    and "crop_contract env"
    and "1550 \<le> fst (im_size sprite)" and "50 \<le> snd (im_size sprite)"
  shows "status r = Completed \<and> length ICONS = 16 \<and>
         distinct (map (output_path env) ICONS) \<and>
         saved_paths (trace r) = map (output_path env) ICONS \<and>
         succeeded (trace r) = 16 \<and>
         (\<forall>(name, x, y, w, h) \<in> set ICONS.
            case image_crop env sprite (x, y, x + w, y + h) of
              Inl e \<Rightarrow> False
            | Inr out \<Rightarrow>
                files (final_fs r) (OUTPUT_DIR env @ [name @ ''.png'']) = Some (enc out) \<and>
                im_size out = (w, h) \<and>
                (\<forall>i \<in> {0..<w}. \<forall>j \<in> {0..<h}.
                   im_pixel out i j = im_pixel sprite (x + i) (y + j))) \<and>
         (\<forall>q. q \<notin> output_path env ` set ICONS \<longrightarrow> files (final_fs r) q = files fs1 q)"
proof -
  note run = script_contract [OF assms(2-7), folded assms(1)]
  have len: "length ICONS = 16" by (simp add: ICONS_def)
  have dist: "distinct (map (output_path env) ICONS)"
    using names_distinct by (rule output_paths_distinct)
  have ins: "\<forall>ic \<in> set ICONS. inside sprite (crop_box ic)"
    using assms(9,10) by (rule icons_inside)
  have all: "cropped env sprite ICONS = ICONS"
    using assms(8) ins by (rule cropped_all)
  have st: "status r = Completed" by (simp add: run)
  have files: "files (final_fs r) = saved_files env enc sprite ICONS (files fs1)"
    by (simp add: run)
  have saves: "saved_paths (trace r) = map (output_path env) ICONS"
    by (simp add: run saved_paths_append saved_paths_map_Print saved_paths_loop_start
          saved_paths_saving_events all)
  have count: "succeeded (trace r) = 16"
    by (simp add: run succeeded_append succeeded_map_Print_summary succeeded_loop_start
          succeeded_saving_events all len)
  have each: "case image_crop env sprite (x, y, x + w, y + h) of
              Inl e \<Rightarrow> False
            | Inr out \<Rightarrow>
                files (final_fs r) (OUTPUT_DIR env @ [name @ ''.png'']) = Some (enc out) \<and>
                im_size out = (w, h) \<and>
                (\<forall>i \<in> {0..<w}. \<forall>j \<in> {0..<h}.
                   im_pixel out i j = im_pixel sprite (x + i) (y + j))"
    if "(name, x, y, w, h) \<in> set ICONS" for name x y w h
  proof -
    from that ins have "inside sprite (x, y, x + w, y + h)" by force
    from crop_inside [OF assms(8) this] obtain out
      where o: "image_crop env sprite (x, y, x + w, y + h) = Inr out"
        and sz: "im_size out = (w, h)"
        and px: "\<forall>i \<in> {0..<w}. \<forall>j \<in> {0..<h}. im_pixel out i j = im_pixel sprite (x + i) (y + j)"
      by blast
    have "saved_files env enc sprite ICONS (files fs1) (output_path env (name, x, y, w, h)) =
        (case image_crop env sprite (crop_box (name, x, y, w, h)) of
           Inl e \<Rightarrow> files fs1 (output_path env (name, x, y, w, h))
         | Inr out \<Rightarrow> Some (enc out))"
      using dist that by (rule saved_files_at)
    then have "files (final_fs r) (OUTPUT_DIR env @ [name @ ''.png'']) = Some (enc out)"
      by (simp add: files o)
    with o sz px show ?thesis by simp
  qed
  have frame: "files (final_fs r) q = files fs1 q" if "q \<notin> output_path env ` set ICONS" for q
    using that by (simp add: files saved_files_other)
  from st len dist saves count each frame show ?thesis by blast
qed


text \<open>
  C3. With the same \<open>crop\<close> and \<open>save\<close>, and a sprite sheet of any size: the run
  completes with exit status 0; every descriptor whose box lies within the sprite sheet
  is confirmed and its file holds the encoding of its region, however many other boxes do
  not; a descriptor whose box exceeds the sprite sheet either is reported with the
  exception \<open>crop\<close> raised, is not saved and leaves its path as it was (absent, if it was),
  or gets whatever image \<open>crop\<close> returned for the box, which is not the region of the
  sprite sheet that the box describes, since there is none (degraded).
\<close>

theorem out_of_bounds_icon:
  assumes "r = script env fs"
    and "pil_available env"
    and "path_exists env fs (SPRITE_PATH env)"
    and "path_mkdir env fs (OUTPUT_DIR env) True True = (None, fs1)"
    and "image_open env fs1 (SPRITE_PATH env) = Inr sprite"
    and "OUTPUT_DIR env \<in> dirs fs1"
    and "save_contract env enc"
    and "crop_contract env"
  shows "status r = Completed \<and> exit_code (status r) = 0 \<and>
         (\<forall>(name, x, y, w, h) \<in> set ICONS.
            inside sprite (x, y, x + w, y + h) \<longrightarrow>
              (case image_crop env sprite (x, y, x + w, y + h) of
                 Inl e \<Rightarrow> False
               | Inr out \<Rightarrow>
                   files (final_fs r) (OUTPUT_DIR env @ [name @ ''.png'']) = Some (enc out) \<and>
                   im_size out = (w, h) \<and>
                   (\<forall>i \<in> {0..<w}. \<forall>j \<in> {0..<h}.
                      im_pixel out i j = im_pixel sprite (x + i) (y + j))) \<and>
              Print (IconSaved name x y (name @ ''.png'')) \<in> set (trace r)) \<and>
         (\<forall>(name, x, y, w, h) \<in> set ICONS.
            \<not> inside sprite (x, y, x + w, y + h) \<longrightarrow>
              (case image_crop env sprite (x, y, x + w, y + h) of
                 Inl e \<Rightarrow>
                   files (final_fs r) (OUTPUT_DIR env @ [name @ ''.png'']) =
                     files fs1 (OUTPUT_DIR env @ [name @ ''.png'']) \<and>
                   OUTPUT_DIR env @ [name @ ''.png''] \<notin> set (saved_paths (trace r)) \<and>
                   Print (IconError name e) \<in> set (trace r)
               | Inr out \<Rightarrow>
                   files (final_fs r) (OUTPUT_DIR env @ [name @ ''.png'']) = Some (enc out) \<and>
                   \<not> is_region sprite (x, y, x + w, y + h) out))"
proof -
  note run = script_contract [OF assms(2-7), folded assms(1)]
  have dist: "distinct (map (output_path env) ICONS)"
    using names_distinct by (rule output_paths_distinct)
  have st: "status r = Completed" "exit_code (status r) = 0"
    by (simp_all add: run)
  have files: "files (final_fs r) = saved_files env enc sprite ICONS (files fs1)"
    by (simp add: run)
  have saves: "set (saved_paths (trace r)) = output_path env ` set (cropped env sprite ICONS)"
    by (simp add: run saved_paths_append saved_paths_map_Print saved_paths_loop_start
          saved_paths_saving_events)
  have at: "files (final_fs r) (OUTPUT_DIR env @ [name @ ''.png'']) =
        (case image_crop env sprite (x, y, x + w, y + h) of
           Inl e \<Rightarrow> files fs1 (OUTPUT_DIR env @ [name @ ''.png''])
         | Inr out \<Rightarrow> Some (enc out))"
    if "(name, x, y, w, h) \<in> set ICONS" for name x y w h
    using saved_files_at [OF dist that, of enc sprite "files fs1",
        unfolded output_path.simps crop_box.simps]
    by (simp only: files)
  have line: "Print (case image_crop env sprite (x, y, x + w, y + h) of
                  Inl e \<Rightarrow> IconError name e
                | Inr out \<Rightarrow> IconSaved name x y (name @ ''.png'')) \<in> set (trace r)"
    if "(name, x, y, w, h) \<in> set ICONS" for name x y w h
    using saving_events_line [OF that, of env sprite] by (simp add: run)
  have good: "(case image_crop env sprite (x, y, x + w, y + h) of
                 Inl e \<Rightarrow> False
               | Inr out \<Rightarrow>
                   files (final_fs r) (OUTPUT_DIR env @ [name @ ''.png'']) = Some (enc out) \<and>
                   im_size out = (w, h) \<and>
                   (\<forall>i \<in> {0..<w}. \<forall>j \<in> {0..<h}.
                      im_pixel out i j = im_pixel sprite (x + i) (y + j))) \<and>
              Print (IconSaved name x y (name @ ''.png'')) \<in> set (trace r)"
    if mem: "(name, x, y, w, h) \<in> set ICONS" and ins: "inside sprite (x, y, x + w, y + h)"
    for name x y w h
  proof -
    from crop_inside [OF assms(8) ins] obtain out
      where o: "image_crop env sprite (x, y, x + w, y + h) = Inr out"
        and sz: "im_size out = (w, h)"
        and px: "\<forall>i \<in> {0..<w}. \<forall>j \<in> {0..<h}. im_pixel out i j = im_pixel sprite (x + i) (y + j)"
      by blast
    from at [OF mem] line [OF mem] o sz px show ?thesis by simp
  qed
  have bad: "case image_crop env sprite (x, y, x + w, y + h) of
                 Inl e \<Rightarrow>
                   files (final_fs r) (OUTPUT_DIR env @ [name @ ''.png'']) =
                     files fs1 (OUTPUT_DIR env @ [name @ ''.png'']) \<and>
                   OUTPUT_DIR env @ [name @ ''.png''] \<notin> set (saved_paths (trace r)) \<and>
                   Print (IconError name e) \<in> set (trace r)
               | Inr out \<Rightarrow>
                   files (final_fs r) (OUTPUT_DIR env @ [name @ ''.png'']) = Some (enc out) \<and>
                   \<not> is_region sprite (x, y, x + w, y + h) out"
    if mem: "(name, x, y, w, h) \<in> set ICONS" and out: "\<not> inside sprite (x, y, x + w, y + h)"
    for name x y w h
  proof (cases "image_crop env sprite (x, y, x + w, y + h)")
    case (Inl e)
    have "output_path env (name, x, y, w, h) \<notin> set (saved_paths (trace r))"
      unfolding saves using names_distinct mem
      by (rule not_cropped_not_saved) (simp add: Inl)
    with at [OF mem] line [OF mem] Inl show ?thesis by simp
  next
    case (Inr img)
    from out have "\<not> is_region sprite (x, y, x + w, y + h) img"
      by (simp add: is_region_def)
    with at [OF mem] Inr show ?thesis by simp
  qed
  from st good bad show ?thesis by blast
qed

theorem all_icons_extracted_witness:
  "status (script ref_env (ref_fs 1550 50)) = Completed \<and>
   succeeded (trace (script ref_env (ref_fs 1550 50))) = 16 \<and>
   saved_paths (trace (script ref_env (ref_fs 1550 50))) = map (output_path ref_env) ICONS \<and>
   files (final_fs (script ref_env (ref_fs 1550 50))) (OUTPUT_DIR ref_env @ [''wherigo.png'']) =
     Some [50, 50, 1507, 77506]"
proof -
  let ?sprite = "\<lparr>im_size = (int 1550, int 50), im_pixel = (\<lambda>i j. 7 + nat i + nat j * 1550)\<rparr>"
  have sz: "1550 \<le> fst (im_size ?sprite)" "50 \<le> snd (im_size ?sprite)" by simp_all
  note inst = all_icons_extracted [OF refl ref_pil ref_exists ref_mkdir ref_open ref_fs1_dirs
      ref_save_contract ref_crop_contract sz]
  have mem: "(''wherigo'', 1500, 0, 50, 50) \<in> set ICONS" by (simp add: ICONS_def)
  from inst have "\<forall>(name, x, y, w, h) \<in> set ICONS.
            case image_crop ref_env ?sprite (x, y, x + w, y + h) of
              Inl e \<Rightarrow> False
            | Inr out \<Rightarrow>
                files (final_fs (script ref_env (ref_fs 1550 50)))
                  (OUTPUT_DIR ref_env @ [name @ ''.png'']) = Some (toy_png out) \<and>
                im_size out = (w, h) \<and>
                (\<forall>i \<in> {0..<w}. \<forall>j \<in> {0..<h}.
                   im_pixel out i j = im_pixel ?sprite (x + i) (y + j))"
    by blast
  from bspec [OF this mem]
  have "files (final_fs (script ref_env (ref_fs 1550 50))) (OUTPUT_DIR ref_env @ [''wherigo.png'']) =
     Some [50, 50, 1507, 77506]"
    by (simp add: ref_crop pil_crop_def toy_png_def)
  with inst show ?thesis by blast
qed

theorem out_of_bounds_icon_witness:
  "status (script ref_env (ref_fs 1520 50)) = Completed \<and>
   \<not> inside \<lparr>im_size = (1520, 50), im_pixel = (\<lambda>i j. 7 + nat i + nat j * 1520)\<rparr>
       (1500, 0, 1550, 50) \<and>
   files (final_fs (script ref_env (ref_fs 1520 50))) (OUTPUT_DIR ref_env @ [''wherigo.png'']) =
     Some [50, 50, 1507, 0] \<and>
   files (final_fs (script ref_env (ref_fs 1520 50))) (OUTPUT_DIR ref_env @ [''letterbox.png'']) =
     Some [50, 50, 1407, 75936]"
proof -
  let ?sprite = "\<lparr>im_size = (int 1520, int 50), im_pixel = (\<lambda>i j. 7 + nat i + nat j * 1520)\<rparr>"
  note inst = out_of_bounds_icon [OF refl ref_pil ref_exists ref_mkdir ref_open ref_fs1_dirs
      ref_save_contract ref_crop_contract, of 1520 50]
  have w: "(''wherigo'', 1500, 0, 50, 50) \<in> set ICONS"
    and l: "(''letterbox'', 1400, 0, 50, 50) \<in> set ICONS"
    by (simp_all add: ICONS_def)
  have out: "\<not> inside ?sprite (1500, 0, 1500 + 50, 0 + 50)"
    and ins: "inside ?sprite (1400, 0, 1400 + 50, 0 + 50)"
    by (simp_all add: inside_def)
  from inst have bad: "\<forall>(name, x, y, w, h) \<in> set ICONS.
            \<not> inside ?sprite (x, y, x + w, y + h) \<longrightarrow>
              (case image_crop ref_env ?sprite (x, y, x + w, y + h) of
                 Inl e \<Rightarrow>
                   files (final_fs (script ref_env (ref_fs 1520 50)))
                     (OUTPUT_DIR ref_env @ [name @ ''.png'']) =
                     files (ref_fs1 1520 50) (OUTPUT_DIR ref_env @ [name @ ''.png'']) \<and>
                   OUTPUT_DIR ref_env @ [name @ ''.png'']
                     \<notin> set (saved_paths (trace (script ref_env (ref_fs 1520 50)))) \<and>
                   Print (IconError name e) \<in> set (trace (script ref_env (ref_fs 1520 50)))
               | Inr out \<Rightarrow>
                   files (final_fs (script ref_env (ref_fs 1520 50)))
                     (OUTPUT_DIR ref_env @ [name @ ''.png'']) = Some (toy_png out) \<and>
                   \<not> is_region ?sprite (x, y, x + w, y + h) out)"
    by blast
  from inst have good: "\<forall>(name, x, y, w, h) \<in> set ICONS.
            inside ?sprite (x, y, x + w, y + h) \<longrightarrow>
              (case image_crop ref_env ?sprite (x, y, x + w, y + h) of
                 Inl e \<Rightarrow> False
               | Inr out \<Rightarrow>
                   files (final_fs (script ref_env (ref_fs 1520 50)))
                     (OUTPUT_DIR ref_env @ [name @ ''.png'']) = Some (toy_png out) \<and>
                   im_size out = (w, h) \<and>
                   (\<forall>i \<in> {0..<w}. \<forall>j \<in> {0..<h}.
                      im_pixel out i j = im_pixel ?sprite (x + i) (y + j))) \<and>
              Print (IconSaved name x y (name @ ''.png''))
                \<in> set (trace (script ref_env (ref_fs 1520 50)))"
    by blast
  from bspec [OF bad w] out
  have a: "files (final_fs (script ref_env (ref_fs 1520 50)))
             (OUTPUT_DIR ref_env @ [''wherigo.png'']) = Some [50, 50, 1507, 0]"
    by (simp add: ref_crop pil_crop_def toy_png_def)
  from bspec [OF good l] ins
  have b: "files (final_fs (script ref_env (ref_fs 1520 50)))
             (OUTPUT_DIR ref_env @ [''letterbox.png'']) = Some [50, 50, 1407, 75936]"
    by (simp add: ref_crop pil_crop_def toy_png_def)
  from inst out a b show ?thesis by simp
qed


text \<open>
  C2. In a run that reaches the loop, whatever \<open>crop\<close> and \<open>save\<close> raise: the run
  completes with exit status 0; \<open>crop\<close> is called once for every descriptor, in the order
  of \<open>ICONS\<close>, with that descriptor's box; the per-icon lines of the output are, in the
  same order, one line per descriptor: the error line with the descriptor's name and the
  exception when its \<open>try\<close> block raised, the confirmation line otherwise; a \<open>crop\<close>
  that raises is always reported with the name and the exception; and the output ends
  with the summary. \<open>s0\<close> is the state in which the loop starts, so
  \<open>for_icons env sprite (take k ICONS) s0\<close> is the state in which it reaches descriptor
  \<open>k\<close>.

  No descriptor affects another: when \<open>save\<close> touches nothing but the file it is given
  and looks at nothing but that file and the directories, the line of every descriptor
  is the one its \<open>try\<close> block yields in the file system \<open>fs1\<close> as it was before the
  loop, and the file at its path is the one that processing this descriptor alone, first,
  would leave there, whatever happened to the others.
\<close>

theorem icon_failures_isolated:
  assumes "r = script env fs"
    and "pil_available env"
    and "path_exists env fs (SPRITE_PATH env)"
    and "path_mkdir env fs (OUTPUT_DIR env) True True = (None, fs1)"
    and "image_open env fs1 (SPRITE_PATH env) = Inr sprite"
    and "s0 = loop_start env fs1 sprite [ImportPIL]"
  shows "status r = Completed \<and> exit_code (status r) = 0 \<and>
         crop_calls (trace r) = map crop_box ICONS \<and>
         filter is_icon_line (stdout (trace r)) =
           map (\<lambda>k. icon_line (ICONS ! k)
                  (raised env sprite (st_fs (for_icons env sprite (take k ICONS) s0)) (ICONS ! k)))
             [0..<length ICONS] \<and>
         (\<forall>k<length ICONS. \<forall>e.
            raised env sprite (st_fs (for_icons env sprite (take k ICONS) s0)) (ICONS ! k) = Some e
            \<longrightarrow> Print (IconError (fst (ICONS ! k)) e) \<in> set (trace r)) \<and>
         (\<forall>ic \<in> set ICONS. \<forall>e.
            image_crop env sprite (crop_box ic) = Inl e
            \<longrightarrow> Print (IconError (fst ic) e) \<in> set (trace r)) \<and>
         (\<exists>pre. stdout (trace r) = pre @ summary env (succeeded (trace r))) \<and>
         (save_frame env \<and> save_keeps_dirs env \<and> save_local env \<longrightarrow>
            filter is_icon_line (stdout (trace r)) =
              map (\<lambda>ic. icon_line ic (raised env sprite fs1 ic)) ICONS \<and>
            (\<forall>ic \<in> set ICONS.
               files (final_fs r) (output_path env ic) =
               files (st_fs (cut_icon env sprite ic s0)) (output_path env ic)))"
proof -
  let ?s = "for_icons env sprite ICONS s0"
  let ?lines = "map (\<lambda>k. icon_line (ICONS ! k)
                  (raised env sprite (st_fs (for_icons env sprite (take k ICONS) s0)) (ICONS ! k)))
             [0..<length ICONS]"
  have run: "r = \<lparr>status = Completed,
      trace = st_trace ?s @ map Print (summary env (succeeded (st_trace ?s))),
      final_fs = st_fs ?s\<rparr>"
    unfolding assms(1,6) by (rule script_loop [OF assms(2-5)])
  have n: "succeeded (trace r) = succeeded (st_trace ?s)"
    by (simp add: run succeeded_append succeeded_map_Print_summary)
  have st: "status r = Completed" "exit_code (status r) = 0"
    by (simp_all add: run)
  have crops: "crop_calls (trace r) = map crop_box ICONS"
    by (simp add: run crop_calls_append crop_calls_map_Print for_icons_crop_calls assms(6)
          loop_start_def before_loop_def)
  have out: "stdout (trace r) = stdout (st_trace s0) @ ?lines @ summary env (succeeded (trace r))"
    by (simp add: n) (simp add: run stdout_append stdout_map_Print for_icons_lines)
  have start: "filter is_icon_line (stdout (st_trace s0)) = []"
    by (simp add: assms(6) stdout_loop_start)
  have lines: "filter is_icon_line (stdout (trace r)) = ?lines"
    by (simp only: out filter_append start filter_icon_lines_summary filter_icon_lines_map
          append_Nil append_Nil2)
  have logged: "Print (IconError (fst (ICONS ! k)) e) \<in> set (trace r)"
    if "k < length ICONS"
      and "raised env sprite (st_fs (for_icons env sprite (take k ICONS) s0)) (ICONS ! k) = Some e"
    for k e
  proof -
    from that have "IconError (fst (ICONS ! k)) e \<in> set ?lines"
      by (auto simp: image_iff icon_line_Some intro!: bexI [of _ k])
    then have "IconError (fst (ICONS ! k)) e \<in> set (stdout (trace r))"
      by (simp only: out set_append Un_iff) simp
    then show ?thesis by (simp add: set_stdout)
  qed
  have crop_logged: "Print (IconError (fst ic) e) \<in> set (trace r)"
    if "ic \<in> set ICONS" and "image_crop env sprite (crop_box ic) = Inl e" for ic e
  proof -
    from that(1) obtain k where k: "k < length ICONS" "ICONS ! k = ic"
      by (auto simp: in_set_conv_nth)
    from that(2)
    have "raised env sprite (st_fs (for_icons env sprite (take k ICONS) s0)) (ICONS ! k) = Some e"
      unfolding k(2) by (rule raised_crop_fails)
    from logged [OF k(1) this] k(2) show ?thesis by simp
  qed
  have summ: "\<exists>pre. stdout (trace r) = pre @ summary env (succeeded (trace r))"
    using out by (intro exI [of _ "stdout (st_trace s0) @ ?lines"]) simp
  have alone: "filter is_icon_line (stdout (trace r)) =
              map (\<lambda>ic. icon_line ic (raised env sprite fs1 ic)) ICONS \<and>
            (\<forall>ic \<in> set ICONS.
               files (final_fs r) (output_path env ic) =
               files (st_fs (cut_icon env sprite ic s0)) (output_path env ic))"
    if c: "save_frame env" "save_keeps_dirs env" "save_local env"
  proof -
    have fs1: "st_fs s0 = fs1" by (simp add: assms(6) st_fs_loop_start)
    from for_icons_local [OF c names_distinct, where s = s0 and base = s0 and sprite = sprite]
    have loc: "stdout (st_trace ?s) =
          stdout (st_trace s0) @ map (\<lambda>ic. icon_line ic (raised env sprite fs1 ic)) ICONS"
      and own: "\<forall>ic \<in> set ICONS.
            files (st_fs ?s) (output_path env ic) =
            files (st_fs (cut_icon env sprite ic s0)) (output_path env ic)"
      by (simp_all add: fs1)
    have "stdout (trace r) =
        stdout (st_trace s0) @ map (\<lambda>ic. icon_line ic (raised env sprite fs1 ic)) ICONS @
        summary env (succeeded (st_trace ?s))"
      by (simp add: run stdout_append stdout_map_Print loc)
    then have "filter is_icon_line (stdout (trace r)) =
        map (\<lambda>ic. icon_line ic (raised env sprite fs1 ic)) ICONS"
      by (simp only: filter_append start filter_icon_lines_summary filter_icon_lines_each
            append_Nil append_Nil2)
    moreover from own have "\<forall>ic \<in> set ICONS.
               files (final_fs r) (output_path env ic) =
               files (st_fs (cut_icon env sprite ic s0)) (output_path env ic)"
      by (simp add: run)
    ultimately show ?thesis by blast
  qed
  from st crops lines logged crop_logged summ alone show ?thesis by blast
qed

theorem icon_failures_isolated_witness:
  "exit_code (status (script ape_env (ref_fs 1550 50))) = 0 \<and>
   crop_calls (trace (script ape_env (ref_fs 1550 50))) = map crop_box ICONS \<and>
   filter is_icon_line (stdout (trace (script ape_env (ref_fs 1550 50)))) =
     [IconSaved ''traditional'' 0 0 ''traditional.png'',
      IconError ''ape'' ''tile cannot extend outside image'',
      IconSaved ''hq'' 200 0 ''hq.png'',
      IconSaved ''multi'' 300 0 ''multi.png'',
      IconSaved ''event'' 400 0 ''event.png'',
      IconSaved ''cito'' 500 0 ''cito.png'',
      IconSaved ''mega'' 600 0 ''mega.png'',
      IconSaved ''giga'' 700 0 ''giga.png'',
      IconSaved ''maze'' 800 0 ''maze.png'',
      IconSaved ''earth'' 900 0 ''earth.png'',
      IconSaved ''virtual'' 1000 0 ''virtual.png'',
      IconSaved ''webcam'' 1100 0 ''webcam.png'',
      IconSaved ''locationless'' 1200 0 ''locationless.png'',
      IconSaved ''mystery'' 1300 0 ''mystery.png'',
      IconSaved ''letterbox'' 1400 0 ''letterbox.png'',
      IconSaved ''wherigo'' 1500 0 ''wherigo.png'']"
proof -
  note inst = icon_failures_isolated [OF refl ape_run(1) ape_run(2) [of 1550 50]
      ape_run(3) [of 1550 50] ape_run(4) [of 1550 50] refl]
  note contracts = ape_contracts
  have save: "fst (image_save ape_env (ref_fs1 1550 50) (OUTPUT_DIR ape_env @ [x]) img fmt) = None"
    for x img fmt
    by (simp add: ape_env_def crop_override ref_save_ok)
  have crop: "image_crop ape_env =
      (\<lambda>img b. if fst b = 100 then Inl ''tile cannot extend outside image'' else pil_crop img b)"
    by (simp add: ape_env_def)
  from inst contracts
  have "filter is_icon_line (stdout (trace (script ape_env (ref_fs 1550 50)))) =
      map (\<lambda>ic. icon_line ic (raised ape_env
             \<lparr>im_size = (int 1550, int 50), im_pixel = (\<lambda>i j. 7 + nat i + nat j * 1550)\<rparr>
             (ref_fs1 1550 50) ic)) ICONS"
    by blast
  also have "\<dots> =
     [IconSaved ''traditional'' 0 0 ''traditional.png'',
      IconError ''ape'' ''tile cannot extend outside image'',
      IconSaved ''hq'' 200 0 ''hq.png'',
      IconSaved ''multi'' 300 0 ''multi.png'',
      IconSaved ''event'' 400 0 ''event.png'',
      IconSaved ''cito'' 500 0 ''cito.png'',
      IconSaved ''mega'' 600 0 ''mega.png'',
      IconSaved ''giga'' 700 0 ''giga.png'',
      IconSaved ''maze'' 800 0 ''maze.png'',
      IconSaved ''earth'' 900 0 ''earth.png'',
      IconSaved ''virtual'' 1000 0 ''virtual.png'',
      IconSaved ''webcam'' 1100 0 ''webcam.png'',
      IconSaved ''locationless'' 1200 0 ''locationless.png'',
      IconSaved ''mystery'' 1300 0 ''mystery.png'',
      IconSaved ''letterbox'' 1400 0 ''letterbox.png'',
      IconSaved ''wherigo'' 1500 0 ''wherigo.png'']"
    by (simp add: ICONS_def crop pil_crop_def save)
  finally show ?thesis using inst by blast
qed

text \<open>
  C9. No \<open>save\<close> happens before the call \<open>OUTPUT_DIR.mkdir(parents=True, exist_ok=True)\<close>,
  and a run in which a \<open>save\<close> happens has made that call and it did not raise. Every
  \<open>save\<close> goes to the path of one of the 16 descriptors. When \<open>save\<close> touches no
  file but the one it is given and \<open>mkdir\<close> touches no file at all, every file that is
  not one of those 16 paths is after the run what it was before.

  The loop works on the file system that \<open>mkdir\<close> returned: when \<open>mkdir\<close> keeps its
  contract and \<open>save\<close> makes and removes no directory, a run that completes ends with
  \<open>OUTPUT_DIR\<close> among the directories, and with every ancestor of it when it was missing
  at the start; and when \<open>save\<close> succeeds wherever the directory of its path exists,
  every \<open>save\<close> of the run succeeds and leaves a file at its path.
\<close>

theorem output_directory_first:
  assumes "r = script env fs"
  shows "saved_paths (takeWhile (\<lambda>ev. ev \<noteq> Mkdir (OUTPUT_DIR env) True True) (trace r)) = [] \<and>
         (saved_paths (trace r) \<noteq> [] \<longrightarrow>
            Mkdir (OUTPUT_DIR env) True True \<in> set (trace r) \<and>
            fst (path_mkdir env fs (OUTPUT_DIR env) True True) = None) \<and>
         set (saved_paths (trace r)) \<subseteq> output_path env ` set ICONS \<and>
         (save_frame env \<and> mkdir_frame env \<longrightarrow>
            (\<forall>q. q \<notin> output_path env ` set ICONS \<longrightarrow> files (final_fs r) q = files fs q)) \<and>
         (mkdir_contract env \<and> save_keeps_dirs env \<and> status r = Completed \<longrightarrow>
            OUTPUT_DIR env \<in> dirs (final_fs r) \<and>
            (OUTPUT_DIR env \<notin> dirs fs \<longrightarrow>
               (\<forall>n \<in> {1..length (OUTPUT_DIR env)}. take n (OUTPUT_DIR env) \<in> dirs (final_fs r)))) \<and>
         (mkdir_contract env \<and> save_contract env enc \<and> status r = Completed \<longrightarrow>
            succeeded (trace r) = length (saved_paths (trace r)) \<and>
            (\<forall>p \<in> set (saved_paths (trace r)). files (final_fs r) p \<noteq> None))"
proof (cases "pil_available env")
  case False
  with assms show ?thesis by (simp add: script_def)
next
  case True
  show ?thesis
  proof (cases rule: main_cases [of env fs])
    case no_sprite
    with True assms show ?thesis by (simp add: script_def main_no_sprite)
  next
    case (mkdir_fails e fs1)
    have "files fs1 = files fs" if "mkdir_frame env"
      using that mkdir_fails(2) by (metis mkdir_frame_def snd_conv)
    with True assms mkdir_fails show ?thesis by (simp add: script_def main_mkdir_fails)
  next
    case (open_fails e fs1)
    have "files fs1 = files fs" if "mkdir_frame env"
      using that open_fails(2) by (metis mkdir_frame_def snd_conv)
    with True assms open_fails show ?thesis
      by (simp add: script_def main_open_fails before_loop_def)
  next
    case (loop sprite fs1)
    let ?start = "loop_start env fs1 sprite [ImportPIL]"
    let ?s = "for_icons env sprite ICONS ?start"
    have run: "r = \<lparr>status = Completed,
        trace = st_trace ?s @ map Print (summary env (succeeded (st_trace ?s))),
        final_fs = st_fs ?s\<rparr>"
      unfolding assms by (rule script_loop [OF True loop])
    obtain t where t: "st_trace ?s = st_trace ?start @ t"
      using for_icons_trace by blast
    have a: "saved_paths (takeWhile (\<lambda>ev. ev \<noteq> Mkdir (OUTPUT_DIR env) True True) (trace r)) = []"
      by (simp add: run takeWhile_loop [OF t])
    have "trace r = st_trace ?start @ t @ map Print (summary env (succeeded (st_trace ?s)))"
      by (simp add: run t)
    then have b: "Mkdir (OUTPUT_DIR env) True True \<in> set (trace r)"
      by (simp add: loop_start_def before_loop_def)
    have c: "fst (path_mkdir env fs (OUTPUT_DIR env) True True) = None"
      by (simp add: loop(2))
    have d: "set (saved_paths (trace r)) \<subseteq> output_path env ` set ICONS"
      by (auto simp: run saved_paths_append saved_paths_map_Print for_icons_saved_paths
            saved_paths_loop_start)
    have e: "files (final_fs r) q = files fs q"
      if "save_frame env" "mkdir_frame env" "q \<notin> output_path env ` set ICONS" for q
    proof -
      have "files fs1 = files fs"
        using that(2) loop(2) by (metis mkdir_frame_def snd_conv)
      then show ?thesis
        by (simp add: run for_icons_frame [OF that(1,3)] st_fs_loop_start)
    qed
    have made: "OUTPUT_DIR env \<in> dirs fs1 \<and>
        (OUTPUT_DIR env \<notin> dirs fs \<longrightarrow>
           (\<forall>n \<in> {1..length (OUTPUT_DIR env)}. take n (OUTPUT_DIR env) \<in> dirs fs1))"
      if "mkdir_contract env"
      using that loop(2) unfolding mkdir_contract_def by blast
    have f: "OUTPUT_DIR env \<in> dirs (final_fs r) \<and>
            (OUTPUT_DIR env \<notin> dirs fs \<longrightarrow>
               (\<forall>n \<in> {1..length (OUTPUT_DIR env)}. take n (OUTPUT_DIR env) \<in> dirs (final_fs r)))"
      if "mkdir_contract env" "save_keeps_dirs env"
    proof -
      have "dirs (final_fs r) = dirs fs1"
        by (simp add: run for_icons_dirs [OF that(2)] st_fs_loop_start)
      with made [OF that(1)] show ?thesis by simp
    qed
    have g: "succeeded (trace r) = length (saved_paths (trace r)) \<and>
            (\<forall>p \<in> set (saved_paths (trace r)). files (final_fs r) p \<noteq> None)"
      if "mkdir_contract env" "save_contract env enc"
    proof -
      from made [OF that(1)] have dir: "OUTPUT_DIR env \<in> dirs fs1" by simp
      note run' = script_contract [OF True loop dir that(2), folded assms]
      have dist: "distinct (map (output_path env) ICONS)"
        using names_distinct by (rule output_paths_distinct)
      have sp: "saved_paths (trace r) = map (output_path env) (cropped env sprite ICONS)"
        by (simp add: run' saved_paths_append saved_paths_map_Print saved_paths_loop_start
              saved_paths_saving_events)
      have n: "succeeded (trace r) = length (cropped env sprite ICONS)"
        by (simp add: run' succeeded_append succeeded_map_Print_summary succeeded_loop_start
              succeeded_saving_events)
      have "files (final_fs r) p \<noteq> None" if "p \<in> set (saved_paths (trace r))" for p
      proof -
        from that obtain ic where ic: "ic \<in> set (cropped env sprite ICONS)"
          and p: "p = output_path env ic"
          unfolding sp by auto
        from ic have mem: "ic \<in> set ICONS" using cropped_subset by blast
        from ic obtain out where "image_crop env sprite (crop_box ic) = Inr out"
          using cropped_isr by blast
        then show ?thesis
          by (simp add: run' p saved_files_at [OF dist mem])
      qed
      with sp n show ?thesis by simp
    qed
    from a b c d e f g show ?thesis by blast
  qed
qed

theorem output_directory_first_witness:
  "saved_paths (takeWhile (\<lambda>ev. ev \<noteq> Mkdir (OUTPUT_DIR ref_env) True True)
     (trace (script ref_env (ref_fs 1550 50)))) = [] \<and>
   saved_paths (trace (script ref_env (ref_fs 1550 50))) = map (output_path ref_env) ICONS \<and>
   Mkdir (OUTPUT_DIR ref_env) True True \<in> set (trace (script ref_env (ref_fs 1550 50))) \<and>
   files (final_fs (script ref_env (ref_fs 1550 50))) (SPRITE_PATH ref_env) = Some [1550, 50, 7] \<and>
   OUTPUT_DIR ref_env \<notin> dirs (ref_fs 1550 50) \<and>
   OUTPUT_DIR ref_env \<in> dirs (final_fs (script ref_env (ref_fs 1550 50))) \<and>
   [''repo'', ''zones'', ''src'', ''browser''] \<in> dirs (final_fs (script ref_env (ref_fs 1550 50))) \<and>
   succeeded (trace (script ref_env (ref_fs 1550 50))) = 16"
proof -
  note inst = output_directory_first [OF refl, of ref_env "ref_fs 1550 50" toy_png]
  have ne: "saved_paths (trace (script ref_env (ref_fs 1550 50))) \<noteq> []"
    by (simp add: ref_saved_paths ICONS_def)
  have completed: "status (script ref_env (ref_fs 1550 50)) = Completed"
    by (simp add: script_loop [OF ref_pil ref_exists ref_mkdir ref_open])
  have "files (final_fs (script ref_env (ref_fs 1550 50))) (SPRITE_PATH ref_env) =
        files (ref_fs 1550 50) (SPRITE_PATH ref_env)"
    using inst ref_save_frame ref_mkdir_frame sprite_not_output [of ref_env ICONS] by blast
  also have "\<dots> = Some [1550, 50, 7]"
    by (simp add: ref_sprite_path ref_fs_def)
  finally have sprite: "files (final_fs (script ref_env (ref_fs 1550 50))) (SPRITE_PATH ref_env) =
      Some [1550, 50, 7]" .
  have absent: "OUTPUT_DIR ref_env \<notin> dirs (ref_fs 1550 50)"
    by (simp add: ref_output_dir ref_fs_def)
  from inst ref_mkdir_contract ref_save_keeps_dirs completed absent
  have there: "OUTPUT_DIR ref_env \<in> dirs (final_fs (script ref_env (ref_fs 1550 50)))"
    and parents: "\<forall>n \<in> {1..length (OUTPUT_DIR ref_env)}.
        take n (OUTPUT_DIR ref_env) \<in> dirs (final_fs (script ref_env (ref_fs 1550 50)))"
    by blast+
  have "(4::nat) \<in> {1..length (OUTPUT_DIR ref_env)}" by (simp add: ref_output_dir)
  with parents have "take 4 (OUTPUT_DIR ref_env) \<in> dirs (final_fs (script ref_env (ref_fs 1550 50)))"
    by blast
  then have anc: "[''repo'', ''zones'', ''src'', ''browser'']
      \<in> dirs (final_fs (script ref_env (ref_fs 1550 50)))"
    by (simp add: ref_output_dir)
  from inst ref_mkdir_contract ref_save_contract completed
  have "succeeded (trace (script ref_env (ref_fs 1550 50))) =
      length (saved_paths (trace (script ref_env (ref_fs 1550 50))))"
    by blast
  then have count: "succeeded (trace (script ref_env (ref_fs 1550 50))) = 16"
    by (simp add: ref_saved_paths ICONS_def)
  from inst ne ref_saved_paths sprite absent there anc count show ?thesis by blast
qed


end
